theory Spec2Isabelle
  imports Main "HOL-Library.Word"
begin

unbundle bit_operations_syntax

section \<open>Constants of sl3.h\<close>

type_synonym u8 = "8 word"
type_synonym u32 = "32 word"

definition SL3_VENDOR_ID :: u32 where "SL3_VENDOR_ID = 0x1CC5"
definition SL3_PRODUCT_ID :: u32 where "SL3_PRODUCT_ID = 0x0001"

definition SL3_BYTES_PER_FRAME :: u32 where "SL3_BYTES_PER_FRAME = 18"
definition SL3_MAX_PACKET_SIZE :: u32 where "SL3_MAX_PACKET_SIZE = 126"

definition SL3_NUM_URBS :: nat where "SL3_NUM_URBS = 16"
definition SL3_ISO_PACKETS :: nat where "SL3_ISO_PACKETS = 8"

definition SL3_HID_CMD_INIT :: u8 where "SL3_HID_CMD_INIT = 0x03"
definition SL3_HID_CMD_SAMPLE_RATE :: u8 where "SL3_HID_CMD_SAMPLE_RATE = 0x31"
definition SL3_HID_CMD_ROUTING :: u8 where "SL3_HID_CMD_ROUTING = 0x33"
definition SL3_HID_CMD_QUERY_PHONO :: u8 where "SL3_HID_CMD_QUERY_PHONO = 0x32"
definition SL3_HID_CMD_STATUS :: u8 where "SL3_HID_CMD_STATUS = 0x36"

definition SL3_HID_NOTIFY_OVERLOAD :: u8 where "SL3_HID_NOTIFY_OVERLOAD = 0x34"
definition SL3_HID_NOTIFY_PHONO :: u8 where "SL3_HID_NOTIFY_PHONO = 0x38"
definition SL3_HID_NOTIFY_USB_PORT :: u8 where "SL3_HID_NOTIFY_USB_PORT = 0x39"

definition SL3_PAIR_DECK_A :: int where "SL3_PAIR_DECK_A = 0x08"
definition SL3_PAIR_DECK_B :: int where "SL3_PAIR_DECK_B = 0x0E"
definition SL3_PAIR_DECK_C :: int where "SL3_PAIR_DECK_C = 0x14"

definition SL3_ROUTE_ANALOG :: u8 where "SL3_ROUTE_ANALOG = 0x00"
definition SL3_ROUTE_USB :: u8 where "SL3_ROUTE_USB = 0x01"

definition SL3_HID_REPORT_SIZE :: nat where "SL3_HID_REPORT_SIZE = 64"

section \<open>Byte buffers\<close>

text \<open>
  A C byte array is a list of bytes. \<open>memcpy_at dst off src\<close> is
  \<^verbatim>\<open>memcpy(dst + off, src, length src)\<close> and \<open>memset_at dst off c n\<close> is
  \<^verbatim>\<open>memset(dst + off, c, n)\<close>. A write inside the destination
  (\<open>off + n \<le> length dst\<close>) keeps the length of \<open>dst\<close>; a write past its end, which in C
  goes to the memory behind the array, lengthens the list by the bytes written there.
\<close>

definition memcpy_at :: "u8 list \<Rightarrow> nat \<Rightarrow> u8 list \<Rightarrow> u8 list" where
  "memcpy_at dst off src = take off dst @ src @ drop (off + length src) dst"

definition memset_at :: "u8 list \<Rightarrow> nat \<Rightarrow> u8 \<Rightarrow> nat \<Rightarrow> u8 list" where
  "memset_at dst off c n = memcpy_at dst off (replicate n c)"

section \<open>HID command interface (sl3\_hid.c)\<close>

text \<open>
  \<open>sl3_hid_build_report buf cmd payload payload_len\<close>: the payload pointer may be NULL
  (\<open>None\<close>), \<open>payload_len\<close> is a C \<open>int\<close>. The copy length is
  \<^verbatim>\<open>min_t(int, payload_len, SL3_HID_REPORT_SIZE - 5)\<close>.
\<close>

definition sl3_hid_build_report :: "u8 list \<Rightarrow> u8 \<Rightarrow> u8 list option \<Rightarrow> int \<Rightarrow> u8 list" where
  "sl3_hid_build_report buf cmd payload payload_len =
     (let b0 = memset_at buf 0 0 SL3_HID_REPORT_SIZE;
          b1 = b0[0 := cmd];
          b2 = b1[1 := ucast (drop_bit 8 SL3_VENDOR_ID AND 0xff)];
          b3 = b2[2 := ucast (SL3_VENDOR_ID AND 0xff)];
          b4 = b3[3 := ucast (drop_bit 8 SL3_PRODUCT_ID AND 0xff)];
          b5 = b4[4 := ucast (SL3_PRODUCT_ID AND 0xff)]
      in case payload of
           None \<Rightarrow> b5
         | Some p \<Rightarrow>
             if payload_len > 0
             then memcpy_at b5 5 (take (nat (min payload_len (int SL3_HID_REPORT_SIZE - 5))) p)
             else b5)"

section \<open>Data model (sl3.h)\<close>

text \<open>Negated errno values are the driver's error returns; these are the errno numbers.\<close>

definition ENOENT :: int where "ENOENT = 2"
definition ENOMEM :: int where "ENOMEM = 12"
definition EBUSY :: int where "EBUSY = 16"
definition ENODEV :: int where "ENODEV = 19"
definition EINVAL :: int where "EINVAL = 22"
definition EPIPE :: int where "EPIPE = 32"
definition EOVERFLOW :: int where "EOVERFLOW = 75"
definition ECONNRESET :: int where "ECONNRESET = 104"
definition ESHUTDOWN :: int where "ESHUTDOWN = 108"
definition ETIMEDOUT :: int where "ETIMEDOUT = 110"

datatype stream_dir = Playback | Capture

datatype ctl_id = Overload_Status | Phono_Switch_Status

text \<open>
  Calls into the kernel that the driver makes and that have an effect outside the
  device structure. Each driver function returns the list of the calls it made, in order.
\<close>

datatype extcall =
    Usb_submit_urb stream_dir nat
  | Usb_kill_urb stream_dir nat
  | Usb_clear_halt
  | Snd_pcm_period_elapsed stream_dir
  | Snd_pcm_stop_xrun stream_dir
  | Snd_ctl_notify ctl_id
  | Usb_submit_hid_in
  | Usb_interrupt_msg "u8 list"
  | Complete_hid_response
  | Msleep nat

record usb_iso_packet_descriptor =
  desc_offset :: u32
  desc_length :: u32
  actual_length :: u32

text \<open>
  \<open>struct sl3_urb_ctx\<close> together with the fields of its \<open>struct urb\<close> that the driver
  reads or writes. \<open>urb_present\<close> is \<^verbatim>\<open>ctx->urb != NULL\<close>. \<open>in_flight\<close> is not a field of
  the C structure: it records whether the USB core owns the URB, that is, whether it has
  been submitted successfully and neither completed nor been killed since.
\<close>

record sl3_urb_ctx =
  urb_present :: bool
  iso_frame_desc :: "usb_iso_packet_descriptor list"
  transfer_buffer_length :: u32
  buffer :: "u8 list"
  index :: nat
  error_retries :: int
  in_flight :: bool

text \<open>
  The fields of the host's \<open>struct snd_pcm_runtime\<close> that the driver reads. The sizes are
  \<open>snd_pcm_uframes_t\<close> (unsigned long) values; \<open>dma_area\<close> is the host ring, \<open>None\<close> when
  the pointer is NULL.
\<close>

record snd_pcm_runtime =
  rate :: nat
  buffer_size :: nat
  period_size :: nat
  frame_bits :: nat
  dma_area :: "u8 list option"

record snd_pcm_substream =
  runtime :: "snd_pcm_runtime option"

record sl3_stream =
  substream :: "snd_pcm_substream option"
  urbs :: "sl3_urb_ctx list"
  hwptr :: u32
  transfer_done :: u32
  running :: bool

text \<open>
  \<open>struct sl3_device\<close>. Pointers to kernel objects are kept as the fact that they are
  non-NULL (\<open>card\<close>, \<open>overload_ctl\<close>, \<open>phono_ctl\<close>, \<open>hid_in_urb\<close>). \<open>hid_response_complete\<close>
  is the \<open>done\<close> count of the completion. \<open>hid_in_flight\<close> is, like \<open>in_flight\<close>, the USB
  core's ownership of the HID IN URB.
\<close>

record sl3_device =
  playback :: sl3_stream
  capture :: sl3_stream
  current_rate :: u32
  routing :: "u8 list"
  feedback_samples :: u32
  sample_accumulator :: u32
  hid_in_urb :: bool
  hid_in_flight :: bool
  hid_in_buf :: "u8 list"
  hid_out_buf :: "u8 list"
  hid_response_complete :: nat
  hid_response_buf :: "u8 list"
  overload_status :: "u8 list"
  phono_status :: "u8 list"
  usb_port_status :: "u8 list"
  card :: bool
  overload_ctl :: bool
  phono_ctl :: bool
  play_urbs_completed :: "64 word"
  cap_urbs_completed :: "64 word"
  play_underruns :: u32
  cap_overruns :: u32
  discontinuities :: u32
  disconnected :: bool

definition stream_of :: "stream_dir \<Rightarrow> sl3_device \<Rightarrow> sl3_stream" where
  "stream_of dir dev = (case dir of Playback \<Rightarrow> playback dev | Capture \<Rightarrow> capture dev)"

definition put_stream :: "stream_dir \<Rightarrow> sl3_stream \<Rightarrow> sl3_device \<Rightarrow> sl3_device" where
  "put_stream dir s dev =
     (case dir of Playback \<Rightarrow> dev\<lparr>playback := s\<rparr> | Capture \<Rightarrow> dev\<lparr>capture := s\<rparr>)"

definition put_ctx :: "stream_dir \<Rightarrow> nat \<Rightarrow> sl3_urb_ctx \<Rightarrow> sl3_device \<Rightarrow> sl3_device" where
  "put_ctx dir k ctx dev =
     put_stream dir ((stream_of dir dev)\<lparr>urbs := (urbs (stream_of dir dev))[k := ctx]\<rparr>) dev"

text \<open>\<^verbatim>\<open>sub ? sub->runtime : NULL\<close>\<close>

definition runtime_of :: "snd_pcm_substream option \<Rightarrow> snd_pcm_runtime option" where
  "runtime_of sub = (case sub of None \<Rightarrow> None | Some s \<Rightarrow> runtime s)"

text \<open>
  The host's \<open>snd_pcm_lib_buffer_bytes\<close>: \<open>frames_to_bytes(runtime, runtime->buffer_size)\<close>,
  that is \<open>buffer_size * frame_bits / 8\<close>.
\<close>

definition snd_pcm_lib_buffer_bytes :: "snd_pcm_runtime \<Rightarrow> nat" where
  "snd_pcm_lib_buffer_bytes rt = buffer_size rt * frame_bits rt div 8"

subsection \<open>The USB core's contract for URBs\<close>




text \<open>
  A \<^verbatim>\<open>for (i = 0; i < n; i++)\<close> loop whose body can fail to return (a division by zero):
  the body is run on the indices in order, and \<open>None\<close> is passed on.
\<close>

fun for_each :: "nat list \<Rightarrow> (nat \<Rightarrow> 's \<Rightarrow> 's option) \<Rightarrow> 's \<Rightarrow> 's option" where
  "for_each [] body s = Some s"
| "for_each (i # is) body s =
     (case body i s of None \<Rightarrow> None | Some s' \<Rightarrow> for_each is body s')"

section \<open>URB management (sl3\_urb.c)\<close>

definition SL3_URB_BUFFER_SIZE :: nat where
  "SL3_URB_BUFFER_SIZE = SL3_ISO_PACKETS * unat SL3_MAX_PACKET_SIZE"

definition SL3_SAMPLES_48K :: u32 where "SL3_SAMPLES_48K = 6"
definition SL3_SAMPLES_44K_BASE :: u32 where "SL3_SAMPLES_44K_BASE = 5"
definition SL3_FRAC_NUM :: u32 where "SL3_FRAC_NUM = 4100"
definition SL3_FRAC_DENOM :: u32 where "SL3_FRAC_DENOM = 8000"

definition sl3_next_packet_samples :: "sl3_device \<Rightarrow> u32 \<times> sl3_device" where
  "sl3_next_packet_samples dev =
     (if current_rate dev = 48000 then (SL3_SAMPLES_48K, dev)
      else
        let samples = SL3_SAMPLES_44K_BASE;
            acc = sample_accumulator dev + SL3_FRAC_NUM
        in if acc \<ge> SL3_FRAC_DENOM
           then (samples + 1, dev\<lparr>sample_accumulator := acc - SL3_FRAC_DENOM\<rparr>)
           else (samples, dev\<lparr>sample_accumulator := acc\<rparr>))"





subsection \<open>Playback fill\<close>

text \<open>
  The packet size of iteration \<open>i\<close> of \<open>sl3_fill_playback_urb\<close>: from the implicit
  feedback when capture runs and feedback is left, from the rate pattern otherwise.
  Returns \<open>(samples, feedback_total, dev)\<close>.
\<close>

definition fill_packet_samples :: "nat \<Rightarrow> sl3_device \<Rightarrow> u32 \<Rightarrow> u32 \<times> u32 \<times> sl3_device" where
  "fill_packet_samples i dev feedback_total =
     (if running (capture dev) \<and> feedback_total > 0
      then
        let remaining = (of_nat (SL3_ISO_PACKETS - i) :: u32);
            s = (feedback_total + remaining - 1) div remaining;
            samples = (if s > SL3_MAX_PACKET_SIZE div SL3_BYTES_PER_FRAME
                       then SL3_MAX_PACKET_SIZE div SL3_BYTES_PER_FRAME else s)
        in (samples, feedback_total - samples, dev)
      else
        let (samples, dev') = sl3_next_packet_samples dev
        in (samples, feedback_total, dev'))"

text \<open>
  The copy from the host ring into the packet's slot, with its wrap-around, and the
  advance of the stream (the branch \<^verbatim>\<open>runtime && runtime->dma_area\<close>).
  \<^verbatim>\<open>stream->hwptr % buf_size\<close> divides by zero when the ring has no frames: \<open>None\<close>.
  The ring \<open>dma\<close> holds \<open>snd_pcm_lib_buffer_bytes\<close> bytes in a runtime the host has set up.
  Where a copy would read past the end of \<open>dma\<close> (the second \<^verbatim>\<open>memcpy\<close> on a ring shorter than
  one packet, which C reads from the memory behind the ring), \<open>take\<close> copies the bytes that
  are there and the rest of the packet's slot keeps its bytes: the model says nothing
  about the bytes C finds behind the ring. \<open>hwptr\<close> and \<open>transfer_done\<close> are as in C.
\<close>

definition playback_copy_packet ::
  "snd_pcm_runtime \<Rightarrow> u8 list \<Rightarrow> sl3_stream \<Rightarrow> sl3_urb_ctx \<Rightarrow> u32 \<Rightarrow> u32 \<Rightarrow> u32
     \<Rightarrow> (sl3_stream \<times> sl3_urb_ctx) option" where
  "playback_copy_packet rt dma stream ctx offset samples bytes =
     (let buf_size = (of_nat (buffer_size rt) :: u32)
      in if buf_size = 0 then None
         else
           let hwptr' = hwptr stream mod buf_size;
               hwptr_bytes = hwptr' * SL3_BYTES_PER_FRAME;
               buf_bytes = (of_nat (snd_pcm_lib_buffer_bytes rt) :: u32);
               buffer' =
                 (if hwptr_bytes + bytes \<le> buf_bytes
                  then memcpy_at (buffer ctx) (unat offset)
                         (take (unat bytes) (drop (unat hwptr_bytes) dma))
                  else
                    let c1 = buf_bytes - hwptr_bytes;
                        b1 = memcpy_at (buffer ctx) (unat offset)
                               (take (unat c1) (drop (unat hwptr_bytes) dma))
                    in memcpy_at b1 (unat offset + unat c1) (take (unat (bytes - c1)) dma))
           in Some (stream\<lparr>hwptr := hwptr stream + samples,
                            transfer_done := transfer_done stream + samples\<rparr>,
                    ctx\<lparr>buffer := buffer'\<rparr>))"

text \<open>One iteration of the loop of \<open>sl3_fill_playback_urb\<close>; the state is
  \<open>(dev, ctx, feedback_total, offset)\<close>, \<open>rt\<close> is the runtime read before the loop.\<close>

definition fill_playback_packet ::
  "snd_pcm_runtime option \<Rightarrow> nat \<Rightarrow> sl3_device \<times> sl3_urb_ctx \<times> u32 \<times> u32
     \<Rightarrow> (sl3_device \<times> sl3_urb_ctx \<times> u32 \<times> u32) option" where
  "fill_playback_packet rt i = (\<lambda>(dev, ctx, feedback_total, offset).
     let (samples, feedback_total', dev1) = fill_packet_samples i dev feedback_total;
         bytes = samples * SL3_BYTES_PER_FRAME;
         d = (iso_frame_desc ctx ! i)\<lparr>desc_offset := offset, desc_length := bytes\<rparr>;
         ctx1 = ctx\<lparr>iso_frame_desc := (iso_frame_desc ctx)[i := d]\<rparr>
     in case (case rt of None \<Rightarrow> None | Some r \<Rightarrow> map_option (Pair r) (dma_area r)) of
          Some (r, dma) \<Rightarrow>
            (case playback_copy_packet r dma (playback dev1) ctx1 offset samples bytes of
               None \<Rightarrow> None
             | Some (stream', ctx2) \<Rightarrow>
                 Some (dev1\<lparr>playback := stream'\<rparr>, ctx2, feedback_total', offset + bytes))
        | None \<Rightarrow>
            Some (dev1, ctx1\<lparr>buffer := memset_at (buffer ctx1) (unat offset) 0 (unat bytes)\<rparr>,
                  feedback_total', offset + bytes))"

definition sl3_fill_playback_urb ::
  "sl3_device \<Rightarrow> sl3_urb_ctx \<Rightarrow> (sl3_device \<times> sl3_urb_ctx) option" where
  "sl3_fill_playback_urb dev ctx =
     (let rt = runtime_of (substream (playback dev));
          feedback_total = feedback_samples dev
      in case for_each [0..<SL3_ISO_PACKETS] (fill_playback_packet rt) (dev, ctx, feedback_total, 0) of
           None \<Rightarrow> None
         | Some (dev', ctx', ft, offset) \<Rightarrow> Some (dev', ctx'\<lparr>transfer_buffer_length := offset\<rparr>))"

subsection \<open>Start and stop\<close>






subsection \<open>Completion callbacks\<close>










section \<open>PCM operations (sl3\_pcm.c)\<close>






section \<open>HID channel (sl3\_hid.c)\<close>

text \<open>The code after the label \<open>resubmit\<close> of \<open>sl3_hid_in_complete\<close>.\<close>

definition hid_in_resubmit :: "int \<Rightarrow> sl3_device \<Rightarrow> sl3_device \<times> extcall list" where
  "hid_in_resubmit submit_err dev =
     (if \<not> disconnected dev
      then (dev\<lparr>hid_in_flight := (submit_err = 0)\<rparr>, [Usb_submit_hid_in])
      else (dev, []))"

text \<open>The \<^verbatim>\<open>switch (data[0])\<close> of \<open>sl3_hid_in_complete\<close>: the dispatch of a report of
  \<open>len\<close> bytes, at least one, that the device has stored in \<open>hid_in_buf\<close>. The length of the
  copy into the mailbox is \<^verbatim>\<open>min_t(int, urb->actual_length, SL3_HID_REPORT_SIZE)\<close>; the USB
  core never reports more than the 64 bytes of the buffer.\<close>

definition hid_in_dispatch :: "u32 \<Rightarrow> sl3_device \<Rightarrow> sl3_device \<times> extcall list" where
  "hid_in_dispatch len dev =
     (let data = hid_in_buf dev
      in if data ! 0 = SL3_HID_NOTIFY_OVERLOAD then
           (if len \<ge> 11
            then (dev\<lparr>overload_status := memcpy_at (overload_status dev) 0 (take 6 (drop 5 data))\<rparr>,
                  if card dev \<and> overload_ctl dev then [Snd_ctl_notify Overload_Status] else [])
            else (dev, []))
         else if data ! 0 = SL3_HID_NOTIFY_PHONO then
           (if len \<ge> 8
            then (dev\<lparr>phono_status := memcpy_at (phono_status dev) 0 (take 3 (drop 5 data))\<rparr>,
                  if card dev \<and> phono_ctl dev then [Snd_ctl_notify Phono_Switch_Status] else [])
            else (dev, []))
         else if data ! 0 = SL3_HID_NOTIFY_USB_PORT then
           (if len \<ge> 9
            then (dev\<lparr>usb_port_status := memcpy_at (usb_port_status dev) 0 (take 4 (drop 5 data))\<rparr>,
                  [])
            else (dev, []))
         else
           (dev\<lparr>hid_response_buf :=
                   memcpy_at (hid_response_buf dev) 0
                     (take (nat (min (sint len) (int SL3_HID_REPORT_SIZE))) data),
                 hid_response_complete := hid_response_complete dev + 1\<rparr>,
            [Complete_hid_response]))"

text \<open>
  \<open>sl3_hid_in_complete\<close>: \<open>status\<close> and \<open>len\<close> are \<open>urb->status\<close> and \<open>urb->actual_length\<close>,
  \<open>submit_err\<close> is what \<open>usb_submit_urb\<close> returns if the callback resubmits.
\<close>

definition sl3_hid_in_complete ::
  "int \<Rightarrow> u32 \<Rightarrow> int \<Rightarrow> sl3_device \<Rightarrow> sl3_device \<times> extcall list" where
  "sl3_hid_in_complete status len submit_err dev =
     (if status = 0 then
        (if len < 1 then hid_in_resubmit submit_err dev
         else
           let (dev1, calls) = hid_in_dispatch len dev;
               (dev2, calls2) = hid_in_resubmit submit_err dev1
           in (dev2, calls @ calls2))
      else if status = - ENOENT \<or> status = - ECONNRESET then (dev, [])
      else if status = - ESHUTDOWN then (dev\<lparr>disconnected := True\<rparr>, [])
      else if status = - EOVERFLOW then hid_in_resubmit submit_err dev
      else if status = - EPIPE then
        (let (d, calls) = hid_in_resubmit submit_err dev in (d, Usb_clear_halt # calls))
      else hid_in_resubmit submit_err dev)"

text \<open>
  A completion of the HID IN URB as the USB core delivers it: the received bytes are in
  the URB's buffer, the URB is given back, the callback runs. An event is
  \<open>(status, data, submit_err)\<close>; \<open>actual_length\<close> is the length of \<open>data\<close>.
\<close>

definition hid_in_event :: "int \<times> u8 list \<times> int \<Rightarrow> sl3_device \<Rightarrow> sl3_device \<times> extcall list" where
  "hid_in_event = (\<lambda>(status, data, submit_err) dev.
     sl3_hid_in_complete status (of_nat (length data)) submit_err
       (dev\<lparr>hid_in_buf := memcpy_at (hid_in_buf dev) 0 data, hid_in_flight := False\<rparr>))"

fun hid_in_events ::
  "(int \<times> u8 list \<times> int) list \<Rightarrow> sl3_device \<Rightarrow> sl3_device \<times> extcall list" where
  "hid_in_events [] dev = (dev, [])"
| "hid_in_events (e # es) dev =
     (let (dev1, calls1) = hid_in_event e dev;
          (dev2, calls2) = hid_in_events es dev1
      in (dev2, calls1 @ calls2))"

text \<open>
  What the device and the USB core do during one command: \<open>msg_err\<close> is the return value
  of \<open>usb_interrupt_msg\<close>, \<open>arrivals\<close> are the completions of the HID IN URB that run while
  the command waits for its response, up to the wait's timeout.
\<close>

record hid_env =
  msg_err :: int
  arrivals :: "(int \<times> u8 list \<times> int) list"

text \<open>
  \<open>sl3_hid_send_cmd_locked\<close>. The caller holds \<open>hid_mutex\<close>, so no other command runs in
  between. \<open>wait_for_completion_timeout\<close> succeeds when the completion has been signalled
  and takes one signal.
\<close>

definition sl3_hid_send_cmd_locked ::
  "hid_env \<Rightarrow> u8 \<Rightarrow> u8 list option \<Rightarrow> int \<Rightarrow> bool \<Rightarrow> sl3_device
     \<Rightarrow> int \<times> sl3_device \<times> extcall list" where
  "sl3_hid_send_cmd_locked env cmd payload payload_len wait_response dev =
     (if disconnected dev then (- ENODEV, dev, [])
      else
        let dev1 = dev\<lparr>hid_out_buf := sl3_hid_build_report (hid_out_buf dev) cmd payload payload_len\<rparr>;
            dev2 = (if wait_response then dev1\<lparr>hid_response_complete := 0\<rparr> else dev1);
            calls = [Usb_interrupt_msg (hid_out_buf dev2)]
        in if msg_err env \<noteq> 0 then (msg_err env, dev2, calls)
           else if wait_response then
             (let (dev3, calls3) = hid_in_events (arrivals env) dev2
              in if hid_response_complete dev3 = 0 then (- ETIMEDOUT, dev3, calls @ calls3)
                 else (0, dev3\<lparr>hid_response_complete := hid_response_complete dev3 - 1\<rparr>,
                       calls @ calls3))
           else (0, dev2, calls))"

definition sl3_hid_send_command ::
  "hid_env \<Rightarrow> u8 \<Rightarrow> u8 list option \<Rightarrow> int \<Rightarrow> sl3_device \<Rightarrow> int \<times> sl3_device \<times> extcall list" where
  "sl3_hid_send_command env cmd payload payload_len dev =
     sl3_hid_send_cmd_locked env cmd payload payload_len True dev"

definition sl3_hid_set_sample_rate ::
  "hid_env \<Rightarrow> u32 \<Rightarrow> sl3_device \<Rightarrow> int \<times> sl3_device \<times> extcall list" where
  "sl3_hid_set_sample_rate env r dev =
     (if r \<noteq> 44100 \<and> r \<noteq> 48000 then (- EINVAL, dev, [])
      else
        let payload = [ucast (drop_bit 8 r AND 0xff) :: u8, ucast (r AND 0xff)];
            (err, dev1, calls) =
              sl3_hid_send_cmd_locked env SL3_HID_CMD_SAMPLE_RATE (Some payload) 2 True dev
        in (err, if err = 0 then dev1\<lparr>current_rate := r\<rparr> else dev1, calls))"

text \<open>\<open>pair\<close> and \<open>mode\<close> are C ints stored into bytes.\<close>

definition sl3_hid_set_routing ::
  "hid_env \<Rightarrow> int \<Rightarrow> int \<Rightarrow> sl3_device \<Rightarrow> int \<times> sl3_device \<times> extcall list" where
  "sl3_hid_set_routing env pair mode dev =
     (let payload = [of_int pair :: u8, 0x01, of_int mode]
      in sl3_hid_send_cmd_locked env SL3_HID_CMD_ROUTING (Some payload) 3 False dev)"

definition sl3_hid_query_phono :: "hid_env \<Rightarrow> sl3_device \<Rightarrow> int \<times> sl3_device \<times> extcall list" where
  "sl3_hid_query_phono env dev =
     (let (err, dev1, calls) =
            sl3_hid_send_cmd_locked env SL3_HID_CMD_QUERY_PHONO None 0 True dev
      in (err,
          if err = 0
          then dev1\<lparr>phono_status :=
                      memcpy_at (phono_status dev1) 0 (take 3 (drop 5 (hid_response_buf dev1)))\<rparr>
          else dev1,
          calls))"

text \<open>
  \<open>sl3_hid_init\<close>. \<open>out_buf\<close>, \<open>in_urb_ok\<close> and \<open>in_buf\<close> are the results of the three
  allocations (\<open>None\<close> or \<open>False\<close> when one fails), \<open>in_submit_err\<close> the result of submitting
  the HID IN URB, \<open>cmd_envs\<close> the environments of the four commands of the handshake.
\<close>

record hid_init_env =
  out_buf :: "u8 list option"
  in_urb_ok :: bool
  in_buf :: "u8 list option"
  in_submit_err :: int
  cmd_envs :: "nat \<Rightarrow> hid_env"

definition sl3_hid_init :: "hid_init_env \<Rightarrow> sl3_device \<Rightarrow> int \<times> sl3_device \<times> extcall list" where
  "sl3_hid_init env dev =
     (case out_buf env of
        None \<Rightarrow> (- ENOMEM, dev, [])
      | Some ob \<Rightarrow>
          if \<not> in_urb_ok env then (- ENOMEM, dev\<lparr>hid_out_buf := []\<rparr>, [])
          else
            (case in_buf env of
               None \<Rightarrow> (- ENOMEM, dev\<lparr>hid_out_buf := [], hid_in_urb := False\<rparr>, [])
             | Some ib \<Rightarrow>
                 if in_submit_err env \<noteq> 0
                 then (in_submit_err env,
                       dev\<lparr>hid_out_buf := [], hid_in_urb := False, hid_in_buf := []\<rparr>,
                       [Usb_submit_hid_in])
                 else
                   let dev0 = dev\<lparr>hid_out_buf := ob, hid_in_urb := True, hid_in_buf := ib,
                                   hid_in_flight := True\<rparr>;
                       (e1, dev1, c1) =
                         sl3_hid_send_cmd_locked (cmd_envs env 1) SL3_HID_CMD_INIT (Some [0x00]) 1 True dev0;
                       (e2, dev2, c2) =
                         sl3_hid_send_cmd_locked (cmd_envs env 2) SL3_HID_CMD_STATUS (Some [0x01]) 1 True dev1;
                       payload = [ucast (drop_bit 8 (current_rate dev2) AND 0xff) :: u8,
                                  ucast (current_rate dev2 AND 0xff)];
                       (e3, dev3, c3) =
                         sl3_hid_send_cmd_locked (cmd_envs env 3) SL3_HID_CMD_SAMPLE_RATE (Some payload) 2 True dev2;
                       (e4, dev4, c4) =
                         sl3_hid_send_cmd_locked (cmd_envs env 4) SL3_HID_CMD_QUERY_PHONO None 0 True dev3;
                       dev5 = (if e4 = 0
                               then dev4\<lparr>phono_status :=
                                           memcpy_at (phono_status dev4) 0
                                             (take 3 (drop 5 (hid_response_buf dev4)))\<rparr>
                               else dev4)
                   in (0, dev5, [Usb_submit_hid_in] @ c1 @ c2 @ c3 @ c4 @ [Msleep 100])))"

section \<open>Rate switch (sl3\_pcm.c)\<close>

text \<open>\<open>sl3_set_sample_rate\<close>; it holds \<open>stream_mutex\<close> from the comparison with the current
  rate to its return.\<close>

definition sl3_set_sample_rate ::
  "hid_env \<Rightarrow> u32 \<Rightarrow> sl3_device \<Rightarrow> int \<times> sl3_device \<times> extcall list" where
  "sl3_set_sample_rate env r dev =
     (if r \<noteq> 44100 \<and> r \<noteq> 48000 then (- EINVAL, dev, [])
      else if r = current_rate dev then (0, dev, [])
      else if running (playback dev) \<or> running (capture dev) then (- EBUSY, dev, [])
      else
        let (err, dev1, calls) = sl3_hid_set_sample_rate env r dev
        in if err \<noteq> 0 then (err, dev1, calls)
           else (0, dev1\<lparr>sample_accumulator := 0\<rparr>, calls @ [Msleep 100]))"

section \<open>Mixer controls (sl3\_control.c)\<close>

definition pair_ids :: "int list" where
  "pair_ids = [SL3_PAIR_DECK_A, SL3_PAIR_DECK_B, SL3_PAIR_DECK_C]"

text \<open>\<open>sl3_rate_put\<close>: \<open>item\<close> is \<open>uval->value.enumerated.item[0]\<close>.\<close>

definition sl3_rate_put :: "hid_env \<Rightarrow> u32 \<Rightarrow> sl3_device \<Rightarrow> int \<times> sl3_device \<times> extcall list" where
  "sl3_rate_put env item dev =
     (let new_rate = (if item \<noteq> 0 then 48000 else 44100)
      in if new_rate = current_rate dev then (0, dev, [])
         else
           let (err, dev1, calls) = sl3_set_sample_rate env new_rate dev
           in if err \<noteq> 0 then (err, dev1, calls) else (1, dev1, calls))"

text \<open>\<open>sl3_route_put\<close>: \<open>idx\<close> is the control's \<open>private_value\<close> (0, 1 or 2), \<open>val\<close> is
  \<open>uval->value.enumerated.item[0]\<close>.\<close>

definition sl3_route_put ::
  "hid_env \<Rightarrow> nat \<Rightarrow> u32 \<Rightarrow> sl3_device \<Rightarrow> int \<times> sl3_device \<times> extcall list" where
  "sl3_route_put env idx val dev =
     (if val > 1 then (- EINVAL, dev, [])
      else if val = ucast (routing dev ! idx) then (0, dev, [])
      else
        let (err, dev1, calls) = sl3_hid_set_routing env (pair_ids ! idx) (uint val) dev
        in if err \<noteq> 0 then (err, dev1, calls)
           else (1, dev1\<lparr>routing := (routing dev1)[idx := ucast val]\<rparr>, calls))"

section \<open>Initial values\<close>

text \<open>The device structure as \<open>kzalloc\<close> returns it in \<open>sl3_probe\<close>: every field zero, every
  pointer NULL.\<close>

definition zero_urb_ctx :: sl3_urb_ctx where
  "zero_urb_ctx = \<lparr>urb_present = False, iso_frame_desc = [], transfer_buffer_length = 0,
                    buffer = [], index = 0, error_retries = 0, in_flight = False\<rparr>"

definition zero_stream :: sl3_stream where
  "zero_stream = \<lparr>substream = None, urbs = replicate SL3_NUM_URBS zero_urb_ctx,
                   hwptr = 0, transfer_done = 0, running = False\<rparr>"

definition zero_device :: sl3_device where
  "zero_device =
     \<lparr>playback = zero_stream, capture = zero_stream, current_rate = 0,
      routing = replicate 3 0, feedback_samples = 0, sample_accumulator = 0,
      hid_in_urb = False, hid_in_flight = False, hid_in_buf = [], hid_out_buf = [],
      hid_response_complete = 0, hid_response_buf = replicate SL3_HID_REPORT_SIZE 0,
      overload_status = replicate 6 0, phono_status = replicate 3 0,
      usb_port_status = replicate 4 0, card = False, overload_ctl = False, phono_ctl = False,
      play_urbs_completed = 0, cap_urbs_completed = 0, play_underruns = 0, cap_overruns = 0,
      discontinuities = 0, disconnected = False\<rparr>"

definition zero_desc :: usb_iso_packet_descriptor where
  "zero_desc = \<lparr>desc_offset = 0, desc_length = 0, actual_length = 0\<rparr>"

text \<open>
  A URB context as one successful iteration of the loop of \<open>sl3_urb_alloc\<close> leaves it:
  \<open>usb_alloc_urb\<close> gives a zeroed URB with 8 packet descriptors, \<open>usb_alloc_coherent\<close> a
  buffer \<open>mem\<close> of \<open>SL3_URB_BUFFER_SIZE\<close> bytes.
\<close>

definition alloc_urb_ctx :: "nat \<Rightarrow> u8 list \<Rightarrow> sl3_urb_ctx \<Rightarrow> sl3_urb_ctx" where
  "alloc_urb_ctx i mem ctx =
     ctx\<lparr>urb_present := True, iso_frame_desc := replicate SL3_ISO_PACKETS zero_desc,
         transfer_buffer_length := of_nat SL3_URB_BUFFER_SIZE, buffer := mem, index := i\<rparr>"

section \<open>Allocation, registration and probe\<close>

text \<open>
  \<open>sl3_urb_free\<close>: every context that has a URB loses its buffer and its URB.
\<close>

definition free_urb_ctx :: "sl3_urb_ctx \<Rightarrow> sl3_urb_ctx" where
  "free_urb_ctx ctx =
     (if \<not> urb_present ctx then ctx
      else ctx\<lparr>buffer := [], urb_present := False, iso_frame_desc := [], in_flight := False\<rparr>)"

definition sl3_urb_free :: "stream_dir \<Rightarrow> sl3_device \<Rightarrow> sl3_device" where
  "sl3_urb_free dir dev =
     put_stream dir ((stream_of dir dev)\<lparr>urbs := map free_urb_ctx (urbs (stream_of dir dev))\<rparr>) dev"

text \<open>
  The loop of \<open>sl3_urb_alloc\<close>. \<open>mem i\<close> is the coherent buffer allocated for URB \<open>i\<close>, or
  \<open>None\<close> when \<open>usb_alloc_urb\<close> or \<open>usb_alloc_coherent\<close> fails for it; the loop then frees
  what it has allocated and returns \<open>-ENOMEM\<close>.
\<close>

fun urb_alloc_loop ::
  "(nat \<Rightarrow> u8 list option) \<Rightarrow> nat list \<Rightarrow> stream_dir \<Rightarrow> sl3_device \<Rightarrow> int \<times> sl3_device" where
  "urb_alloc_loop mem [] dir dev = (0, dev)"
| "urb_alloc_loop mem (i # is) dir dev =
     (case mem i of
        None \<Rightarrow> (- ENOMEM, sl3_urb_free dir dev)
      | Some m \<Rightarrow>
          urb_alloc_loop mem is dir
            (put_ctx dir i (alloc_urb_ctx i m (urbs (stream_of dir dev) ! i)) dev))"

definition sl3_urb_alloc ::
  "(nat \<Rightarrow> u8 list option) \<Rightarrow> stream_dir \<Rightarrow> sl3_device \<Rightarrow> int \<times> sl3_device" where
  "sl3_urb_alloc mem dir dev = urb_alloc_loop mem [0..<SL3_NUM_URBS] dir dev"

text \<open>
  \<open>sl3_pcm_init\<close>: \<open>card_err\<close> and \<open>pcm_err\<close> are the results of \<open>snd_card_new\<close> and
  \<open>snd_pcm_new\<close>; both count as failures only when negative.
\<close>

definition sl3_pcm_init :: "int \<Rightarrow> int \<Rightarrow> sl3_device \<Rightarrow> int \<times> sl3_device" where
  "sl3_pcm_init card_err pcm_err dev =
     (if card_err < 0 then (card_err, dev)
      else
        let dev1 = dev\<lparr>card := True\<rparr>
        in if pcm_err < 0 then (pcm_err, dev1\<lparr>card := False\<rparr>)
           else (0, dev1))"

text \<open>
  \<open>sl3_control_init\<close>. The six controls are numbered in the order of their creation:
  0 the sample rate, 1 to 3 the deck routes, 4 the overload status, 5 the phono status.
  \<open>new_ok n\<close> says that \<open>snd_ctl_new1\<close> returned a control, \<open>add_err n\<close> is the result of
  \<open>snd_ctl_add\<close>.
\<close>

definition ctl_create :: "(nat \<Rightarrow> bool) \<Rightarrow> (nat \<Rightarrow> int) \<Rightarrow> nat \<Rightarrow> int" where
  "ctl_create new_ok add_err n = (if \<not> new_ok n then - ENOMEM else add_err n)"

fun route_ctls_loop :: "(nat \<Rightarrow> bool) \<Rightarrow> (nat \<Rightarrow> int) \<Rightarrow> nat list \<Rightarrow> int" where
  "route_ctls_loop new_ok add_err [] = 0"
| "route_ctls_loop new_ok add_err (i # is) =
     (let err = ctl_create new_ok add_err (Suc i)
      in if err \<noteq> 0 then err else route_ctls_loop new_ok add_err is)"

definition sl3_control_init ::
  "(nat \<Rightarrow> bool) \<Rightarrow> (nat \<Rightarrow> int) \<Rightarrow> sl3_device \<Rightarrow> int \<times> sl3_device" where
  "sl3_control_init new_ok add_err dev =
     (let e0 = ctl_create new_ok add_err 0
      in if e0 \<noteq> 0 then (e0, dev)
         else
           let e1 = route_ctls_loop new_ok add_err [0..<3]
           in if e1 \<noteq> 0 then (e1, dev)
              else
                let e4 = ctl_create new_ok add_err 4
                in if e4 \<noteq> 0 then (e4, dev)
                   else
                     let dev1 = dev\<lparr>overload_ctl := True\<rparr>;
                         e5 = ctl_create new_ok add_err 5
                     in if e5 \<noteq> 0 then (e5, dev1)
                        else (0, dev1\<lparr>phono_ctl := True\<rparr>))"

text \<open>
  What the kernel answers during \<open>sl3_probe\<close>: the number of the interface being probed,
  the allocation of the device structure, for the interfaces 1, 2 and 3 whether
  \<open>usb_ifnum_to_if\<close> finds them and what \<open>usb_driver_claim_interface\<close> returns, what
  \<open>usb_set_interface\<close> returns for the alternate setting 1 of the interfaces 1 and 2, and
  the inputs of the initialisation functions above.
\<close>

record probe_env =
  intf_num :: int
  kzalloc_ok :: bool
  iface_found :: "nat \<Rightarrow> bool"
  claim_err :: "nat \<Rightarrow> int"
  set_interface_err :: "nat \<Rightarrow> int"
  hid_init_input :: hid_init_env
  urb_mem :: "stream_dir \<Rightarrow> nat \<Rightarrow> u8 list option"
  card_new_err :: int
  pcm_new_err :: int
  ctl_new_ok :: "nat \<Rightarrow> bool"
  ctl_add_err :: "nat \<Rightarrow> int"
  card_register_err :: int

text \<open>
  \<open>sl3_probe\<close> with the module parameter \<open>default_sample_rate\<close> (a C int, stored into the
  unsigned \<open>current_rate\<close>). A failure returns the error (\<open>Inl\<close>) after the unwinding, which
  frees the device structure; a success returns the device it has installed.
\<close>

definition sl3_probe :: "probe_env \<Rightarrow> int \<Rightarrow> int + sl3_device" where
  "sl3_probe env default_sample_rate =
     (if intf_num env \<noteq> 0 then Inl (- ENODEV)
      else if \<not> kzalloc_ok env then Inl (- ENOMEM)
      else if \<not> iface_found env 1 then Inl (- ENODEV)
      else if claim_err env 1 \<noteq> 0 then Inl (claim_err env 1)
      else if \<not> iface_found env 2 then Inl (- ENODEV)
      else if claim_err env 2 \<noteq> 0 then Inl (claim_err env 2)
      else if \<not> iface_found env 3 then Inl (- ENODEV)
      else if claim_err env 3 \<noteq> 0 then Inl (claim_err env 3)
      else if set_interface_err env 1 \<noteq> 0 then Inl (set_interface_err env 1)
      else if set_interface_err env 2 \<noteq> 0 then Inl (set_interface_err env 2)
      else
        let dev0 = zero_device\<lparr>current_rate := word_of_int default_sample_rate\<rparr>;
            dev1 = dev0\<lparr>routing := (routing dev0)[0 := SL3_ROUTE_USB]\<rparr>;
            dev2 = dev1\<lparr>routing := (routing dev1)[1 := SL3_ROUTE_USB]\<rparr>;
            dev3 = dev2\<lparr>routing := (routing dev2)[2 := SL3_ROUTE_USB]\<rparr>
        in case sl3_hid_init (hid_init_input env) dev3 of (e_hid, dev4, calls) \<Rightarrow>
           if e_hid \<noteq> 0 then Inl e_hid
           else case sl3_urb_alloc (urb_mem env Playback) Playback dev4 of (e_play, dev5) \<Rightarrow>
           if e_play \<noteq> 0 then Inl e_play
           else case sl3_urb_alloc (urb_mem env Capture) Capture dev5 of (e_cap, dev6) \<Rightarrow>
           if e_cap \<noteq> 0 then Inl e_cap
           else case sl3_pcm_init (card_new_err env) (pcm_new_err env) dev6 of (e_pcm, dev7) \<Rightarrow>
           if e_pcm \<noteq> 0 then Inl e_pcm
           else case sl3_control_init (ctl_new_ok env) (ctl_add_err env) dev7 of (e_ctl, dev8) \<Rightarrow>
           if e_ctl \<noteq> 0 then Inl e_ctl
           else if card_register_err env \<noteq> 0 then Inl (card_register_err env)
           else Inr dev8)"

section \<open>Call sequences and sample inputs\<close>

text \<open>\<open>n\<close> successive calls of \<open>sl3_next_packet_samples\<close>: the values returned, in order,
  and the device after the last call.\<close>

fun next_samples_calls :: "nat \<Rightarrow> sl3_device \<Rightarrow> u32 list \<times> sl3_device" where
  "next_samples_calls 0 dev = ([], dev)"
| "next_samples_calls (Suc n) dev =
     (let (s, dev1) = sl3_next_packet_samples dev;
          (ss, dev2) = next_samples_calls n dev1
      in (s # ss, dev2))"

text \<open>The sample counts that \<open>fill_packet_samples\<close> gives to the packets \<open>is\<close> in turn,
  starting from the device \<open>dev\<close> and the feedback \<open>ft\<close>: the sizes, in frames, of the packets
  of one fill.\<close>

fun fill_samples :: "nat list \<Rightarrow> sl3_device \<Rightarrow> u32 \<Rightarrow> u32 list" where
  "fill_samples [] dev ft = []"
| "fill_samples (i # is) dev ft =
     (case fill_packet_samples i dev ft of
        (s, ft', dev') \<Rightarrow> s # fill_samples is dev' ft')"

text \<open>A runtime as the host sets it up for 6 channels of 24 bits: a ring of \<open>frames\<close>
  frames of 18 bytes, holding the bytes \<open>ring\<close>.\<close>

definition host_runtime :: "nat \<Rightarrow> nat \<Rightarrow> nat \<Rightarrow> u8 list \<Rightarrow> snd_pcm_runtime" where
  "host_runtime r frames period ring =
     \<lparr>rate = r, buffer_size = frames, period_size = period, frame_bits = 144,
      dma_area = Some ring\<rparr>"

text \<open>
  The packet sizes as the specification words them: for each of the \<open>r\<close> remaining packets
  in turn, the ceiling of the remaining feedback over the remaining packets, clamped to 7,
  is emitted and subtracted.
\<close>

fun feedback_sizes :: "nat \<Rightarrow> nat \<Rightarrow> nat list" where
  "feedback_sizes F 0 = []"
| "feedback_sizes F (Suc r) =
     (let s = min 7 ((F + r) div Suc r) in s # feedback_sizes (F - s) r)"

text \<open>The host ring of a runtime can be used: there is none, or it has at least one frame
  (as an unsigned int).\<close>

definition ring_ok :: "snd_pcm_runtime option \<Rightarrow> bool" where
  "ring_ok rt =
     (case rt of None \<Rightarrow> True
      | Some r \<Rightarrow> (case dma_area r of None \<Rightarrow> True
                   | Some dma \<Rightarrow> (of_nat (buffer_size r) :: u32) \<noteq> 0))"

text \<open>
  A probe in which every kernel call succeeds and the device answers every command of
  the handshake with a report \<open>resp\<close>.
\<close>

definition good_hid_env :: "u8 list \<Rightarrow> hid_env" where
  "good_hid_env resp = \<lparr>msg_err = 0, arrivals = [(0, resp, 0)]\<rparr>"

definition good_probe_env :: "u8 list \<Rightarrow> probe_env" where
  "good_probe_env resp =
     \<lparr>intf_num = 0, kzalloc_ok = True, iface_found = (\<lambda>n. True), claim_err = (\<lambda>n. 0),
      set_interface_err = (\<lambda>n. 0),
      hid_init_input = \<lparr>out_buf = Some (replicate 64 0), in_urb_ok = True,
                         in_buf = Some (replicate 64 0), in_submit_err = 0,
                         cmd_envs = (\<lambda>n. good_hid_env resp)\<rparr>,
      urb_mem = (\<lambda>dir i. Some (replicate 1008 0)),
      card_new_err = 0, pcm_new_err = 0, ctl_new_ok = (\<lambda>n. True), ctl_add_err = (\<lambda>n. 0),
      card_register_err = 0\<rparr>"

















section \<open>Loop invariants\<close>

text \<open>The invariants of the packet loops, used in the proofs below. \<open>i\<close> is the number of
  packets done.\<close>

definition no_ring_inv ::
  "sl3_device \<Rightarrow> nat \<Rightarrow> sl3_device \<times> sl3_urb_ctx \<times> u32 \<times> u32 \<Rightarrow> bool" where
  "no_ring_inv dev i = (\<lambda>(dev', ctx', ft, off).
     dev' = dev\<lparr>sample_accumulator := sample_accumulator dev'\<rparr>
     \<and> unat off \<le> 126 * i
     \<and> length (buffer ctx') = SL3_URB_BUFFER_SIZE
     \<and> length (iso_frame_desc ctx') = SL3_ISO_PACKETS
     \<and> take (unat off) (buffer ctx') = replicate (unat off) 0
     \<and> (\<forall>j<i. unat (desc_offset (iso_frame_desc ctx' ! j))
                 + unat (desc_length (iso_frame_desc ctx' ! j)) \<le> unat off))"

definition ring_inv ::
  "sl3_device \<Rightarrow> nat \<Rightarrow> sl3_device \<times> sl3_urb_ctx \<times> u32 \<times> u32 \<Rightarrow> bool" where
  "ring_inv dev i = (\<lambda>(dev', ctx', ft, off).
     dev' = dev\<lparr>sample_accumulator := sample_accumulator dev',
                playback := (playback dev)
                  \<lparr>hwptr := hwptr (playback dev) + of_nat (unat off div 18),
                   transfer_done := transfer_done (playback dev) + of_nat (unat off div 18)\<rparr>\<rparr>
     \<and> unat off \<le> 126 * i
     \<and> 18 dvd unat off
     \<and> length (iso_frame_desc ctx') = SL3_ISO_PACKETS
     \<and> (\<Sum>j<i. unat (desc_length (iso_frame_desc ctx' ! j))) = unat off)"

text \<open>The descriptors during a fill whose packets get the sample counts \<open>S\<close>.\<close>

definition size_inv ::
  "u32 list \<Rightarrow> nat \<Rightarrow> sl3_device \<times> sl3_urb_ctx \<times> u32 \<times> u32 \<Rightarrow> bool" where
  "size_inv S i = (\<lambda>(dev', ctx', ft, off).
     length (iso_frame_desc ctx') = SL3_ISO_PACKETS
     \<and> unat off \<le> 126 * i
     \<and> map desc_length (take i (iso_frame_desc ctx'))
         @ map (\<lambda>s. s * SL3_BYTES_PER_FRAME) (fill_samples [i..<8] dev' ft)
       = map (\<lambda>s. s * SL3_BYTES_PER_FRAME) S
     \<and> (\<forall>j<i. unat (desc_offset (iso_frame_desc ctx' ! j))
                 = (\<Sum>k<j. unat (desc_length (iso_frame_desc ctx' ! k))))
     \<and> (\<Sum>k<i. unat (desc_length (iso_frame_desc ctx' ! k))) = unat off)"

definition fb_inv ::
  "sl3_device \<Rightarrow> nat \<Rightarrow> nat \<Rightarrow> sl3_device \<times> sl3_urb_ctx \<times> u32 \<times> u32 \<Rightarrow> bool" where
  "fb_inv dev F i = (\<lambda>(dev', ctx', ft, off).
     sample_accumulator dev' = sample_accumulator dev
     \<and> running (capture dev')
     \<and> 8 - i \<le> unat ft \<and> unat ft \<le> 7 * (8 - i)
     \<and> unat off \<le> 126 * i
     \<and> length (iso_frame_desc ctx') = SL3_ISO_PACKETS
     \<and> map (\<lambda>d. unat (desc_length d)) (take i (iso_frame_desc ctx'))
         @ map (\<lambda>s. s * 18) (feedback_sizes (unat ft) (8 - i))
       = map (\<lambda>s. s * 18) (feedback_sizes F 8)
     \<and> (\<Sum>j<i. unat (desc_length (iso_frame_desc ctx' ! j))) = unat off)"







section \<open>Buffer lemmas\<close>

lemma length_memcpy_at:
  "off + length src \<le> length dst \<Longrightarrow> length (memcpy_at dst off src) = length dst"
  by (simp add: memcpy_at_def)

lemma length_memset_at:
  "off + n \<le> length dst \<Longrightarrow> length (memset_at dst off c n) = length dst"
  by (simp add: memset_at_def length_memcpy_at)

lemma memset_at_whole:
  "length dst = n \<Longrightarrow> memset_at dst 0 c n = replicate n c"
  by (simp add: memset_at_def memcpy_at_def)

lemma memcpy_at_after_prefix:
  "off = length h \<Longrightarrow> memcpy_at (h @ r) off s = h @ s @ drop (length s) r"
  by (simp add: memcpy_at_def)

lemma hid_header_bytes:
  "ucast (drop_bit 8 SL3_VENDOR_ID AND 0xff) = (0x1C :: u8)"
  "ucast (SL3_VENDOR_ID AND 0xff) = (0xC5 :: u8)"
  "ucast (drop_bit 8 SL3_PRODUCT_ID AND 0xff) = (0x00 :: u8)"
  "ucast (SL3_PRODUCT_ID AND 0xff) = (0x01 :: u8)"
  by (simp_all add: SL3_VENDOR_ID_def SL3_PRODUCT_ID_def)

lemma hid_header_prefix:
  "(replicate 64 (0::u8))[0 := cmd, 1 := 0x1C, 2 := 0xC5, 3 := 0x00, 4 := 0x01]
     = [cmd, 0x1C, 0xC5, 0x00, 0x01] @ replicate 59 0"
  by (simp add: numeral_eq_Suc)

lemma upt8: "[0..<8] = [0, 1, 2, 3, 4, 5, 6, 7]"
  by code_simp

lemma replicate8: "replicate 8 x = [x, x, x, x, x, x, x, x]"
  by (simp add: numeral_eq_Suc)

lemma update8:
  "[x0, x1, x2, x3, x4, x5, x6, x7]
     [0 := a0, 1 := a1, 2 := a2, 3 := a3, 4 := a4, 5 := a5, 6 := a6, 7 := a7]
     = [a0, a1, a2, a3, a4, a5, a6, a7]"
  by (simp add: numeral_eq_Suc)



lemma upt16: "[0..<16] = [0,1,2,3,4,5,6,7,8,9,10,11,12,13,14,15]"
  by code_simp

lemma upt3: "[0..<3] = [0,1,2]"
  by code_simp

section \<open>Loops and packet sizes\<close>


lemma for_each_upt_inv:
  assumes "I a s"
    and "\<And>i s. a \<le> i \<Longrightarrow> i < b \<Longrightarrow> I i s \<Longrightarrow> \<exists>s'. body i s = Some s' \<and> I (Suc i) s'"
    and "a \<le> b"
  shows "\<exists>s'. for_each [a..<b] body s = Some s' \<and> I b s'"
  using assms
proof (induction "b - a" arbitrary: a s)
  case 0
  then show ?case by simp
next
  case (Suc n)
  then have lt: "a < b" by simp
  from Suc.prems(2) [of a s] Suc.prems(1) lt
  obtain s1 where s1: "body a s = Some s1" "I (Suc a) s1" by auto
  have n: "n = b - Suc a" using Suc.hyps(2) by simp
  have step: "\<And>i s. Suc a \<le> i \<Longrightarrow> i < b \<Longrightarrow> I i s \<Longrightarrow> \<exists>s'. body i s = Some s' \<and> I (Suc i) s'"
    using Suc.prems(2) by simp
  from Suc.hyps(1) [OF n s1(2) step] lt
  obtain s' where "for_each [Suc a..<b] body s1 = Some s'" "I b s'" by auto
  then show ?case using lt s1 by (simp add: upt_conv_Cons)
qed

lemma next_packet_samples_frame:
  "\<exists>s a. sl3_next_packet_samples dev = (s, dev\<lparr>sample_accumulator := a\<rparr>) \<and> 5 \<le> unat s \<and> unat s \<le> 6"
proof (cases "current_rate dev = 48000")
  case True
  then have "sl3_next_packet_samples dev = (6, dev\<lparr>sample_accumulator := sample_accumulator dev\<rparr>)"
    by (simp add: sl3_next_packet_samples_def SL3_SAMPLES_48K_def)
  then show ?thesis by (intro exI [of _ 6] exI [of _ "sample_accumulator dev"]) simp
next
  case False
  show ?thesis
  proof (cases "SL3_FRAC_DENOM \<le> sample_accumulator dev + SL3_FRAC_NUM")
    case True
    with False have "sl3_next_packet_samples dev =
        (6, dev\<lparr>sample_accumulator := sample_accumulator dev + SL3_FRAC_NUM - SL3_FRAC_DENOM\<rparr>)"
      by (simp add: sl3_next_packet_samples_def SL3_SAMPLES_44K_BASE_def Let_def)
    then show ?thesis by (intro exI [of _ 6] exI [of _ "sample_accumulator dev + SL3_FRAC_NUM - SL3_FRAC_DENOM"]) simp
  next
    case F2: False
    with False have "sl3_next_packet_samples dev =
        (5, dev\<lparr>sample_accumulator := sample_accumulator dev + SL3_FRAC_NUM\<rparr>)"
      by (simp add: sl3_next_packet_samples_def SL3_SAMPLES_44K_BASE_def Let_def)
    then show ?thesis by (intro exI [of _ 5] exI [of _ "sample_accumulator dev + SL3_FRAC_NUM"]) simp
  qed
qed

lemma max_frames_per_packet: "SL3_MAX_PACKET_SIZE div SL3_BYTES_PER_FRAME = 7"
  by (simp add: SL3_MAX_PACKET_SIZE_def SL3_BYTES_PER_FRAME_def)

lemma fill_packet_samples_frame:
  "\<exists>s ft' a. fill_packet_samples i dev ft = (s, ft', dev\<lparr>sample_accumulator := a\<rparr>) \<and> unat s \<le> 7"
proof (cases "running (capture dev) \<and> ft > 0")
  case True
  define s where "s = (ft + of_nat (SL3_ISO_PACKETS - i) - 1) div of_nat (SL3_ISO_PACKETS - i)"
  define c where "c = (if s > 7 then 7 else s)"
  have "fill_packet_samples i dev ft = (c, ft - c, dev\<lparr>sample_accumulator := sample_accumulator dev\<rparr>)"
    using True by (simp add: fill_packet_samples_def max_frames_per_packet Let_def c_def s_def)
  moreover have "c \<le> 7" by (simp add: c_def not_less)
  then have "unat c \<le> 7" by (simp add: word_le_nat_alt)
  ultimately show ?thesis by blast
next
  case False
  obtain s a where "sl3_next_packet_samples dev = (s, dev\<lparr>sample_accumulator := a\<rparr>)" "unat s \<le> 6"
    using next_packet_samples_frame [of dev] by blast
  then have "fill_packet_samples i dev ft = (s, ft, dev\<lparr>sample_accumulator := a\<rparr>) \<and> unat s \<le> 7"
    using False by (auto simp add: fill_packet_samples_def)
  then show ?thesis by blast
qed



lemma unat_frames_to_bytes:
  fixes s :: u32
  assumes "unat s \<le> 7"
  shows "unat (s * SL3_BYTES_PER_FRAME) = unat s * 18"
proof -
  have "unat s * unat (18 :: u32) < 2 ^ LENGTH(32)" using assms by simp
  then have "unat (s * 18) = unat s * unat (18 :: u32)" by (simp only: unat_mult_lem)
  then show ?thesis by (simp add: SL3_BYTES_PER_FRAME_def)
qed

lemma unat_offset_add:
  fixes off b :: u32
  assumes "unat off \<le> 1008" and "unat b \<le> 126"
  shows "unat (off + b) = unat off + unat b"
proof -
  have "unat off + unat b < 2 ^ LENGTH(32)" using assms by simp
  then show ?thesis by (simp only: unat_add_lem)
qed

lemma fill_playback_packet_no_ring:
  assumes "rt = None \<or> (\<exists>r. rt = Some r \<and> dma_area r = None)"
  shows "\<exists>s ft' a. unat s \<le> 7
     \<and> fill_packet_samples i dev ft = (s, ft', dev\<lparr>sample_accumulator := a\<rparr>)
     \<and> fill_playback_packet rt i (dev, ctx, ft, off) =
         Some (dev\<lparr>sample_accumulator := a\<rparr>,
               ctx\<lparr>iso_frame_desc := (iso_frame_desc ctx)
                        [i := (iso_frame_desc ctx ! i)\<lparr>desc_offset := off,
                                desc_length := s * SL3_BYTES_PER_FRAME\<rparr>],
                   buffer := memset_at (buffer ctx) (unat off) 0 (unat (s * SL3_BYTES_PER_FRAME))\<rparr>,
               ft', off + s * SL3_BYTES_PER_FRAME)"
proof -
  obtain s ft' a where f: "fill_packet_samples i dev ft = (s, ft', dev\<lparr>sample_accumulator := a\<rparr>)"
    and b: "unat s \<le> 7"
    using fill_packet_samples_frame [of i dev ft] by blast
  have "(case rt of None \<Rightarrow> None | Some r \<Rightarrow> map_option (Pair r) (dma_area r)) = None"
    using assms by auto
  then have "fill_playback_packet rt i (dev, ctx, ft, off) =
         Some (dev\<lparr>sample_accumulator := a\<rparr>,
               ctx\<lparr>iso_frame_desc := (iso_frame_desc ctx)
                        [i := (iso_frame_desc ctx ! i)\<lparr>desc_offset := off,
                                desc_length := s * SL3_BYTES_PER_FRAME\<rparr>],
                   buffer := memset_at (buffer ctx) (unat off) 0 (unat (s * SL3_BYTES_PER_FRAME))\<rparr>,
               ft', off + s * SL3_BYTES_PER_FRAME)"
    using f by (simp add: fill_playback_packet_def Let_def)
  with f b show ?thesis by blast
qed

lemma playback_copy_packet_ring:
  assumes "(of_nat (buffer_size r) :: u32) \<noteq> 0"
  shows "\<exists>buf'. playback_copy_packet r dma st ctx off s b =
           Some (st\<lparr>hwptr := hwptr st + s, transfer_done := transfer_done st + s\<rparr>,
                 ctx\<lparr>buffer := buf'\<rparr>)"
  using assms by (auto simp add: playback_copy_packet_def Let_def)

lemma fill_playback_packet_ring:
  assumes "rt = Some r" and "dma_area r = Some dma" and "(of_nat (buffer_size r) :: u32) \<noteq> 0"
  shows "\<exists>s ft' a buf'. unat s \<le> 7
     \<and> fill_packet_samples i dev ft = (s, ft', dev\<lparr>sample_accumulator := a\<rparr>)
     \<and> fill_playback_packet rt i (dev, ctx, ft, off) =
         Some (dev\<lparr>sample_accumulator := a,
                   playback := (playback dev)\<lparr>hwptr := hwptr (playback dev) + s,
                                 transfer_done := transfer_done (playback dev) + s\<rparr>\<rparr>,
               ctx\<lparr>iso_frame_desc := (iso_frame_desc ctx)
                        [i := (iso_frame_desc ctx ! i)\<lparr>desc_offset := off,
                                desc_length := s * SL3_BYTES_PER_FRAME\<rparr>],
                   buffer := buf'\<rparr>,
               ft', off + s * SL3_BYTES_PER_FRAME)"
proof -
  obtain s ft' a where f: "fill_packet_samples i dev ft = (s, ft', dev\<lparr>sample_accumulator := a\<rparr>)"
    and b: "unat s \<le> 7"
    using fill_packet_samples_frame [of i dev ft] by blast
  have c: "(case rt of None \<Rightarrow> None | Some r \<Rightarrow> map_option (Pair r) (dma_area r)) = Some (r, dma)"
    using assms by simp
  let ?ctx1 = "ctx\<lparr>iso_frame_desc := (iso_frame_desc ctx)
                        [i := (iso_frame_desc ctx ! i)\<lparr>desc_offset := off,
                                desc_length := s * SL3_BYTES_PER_FRAME\<rparr>]\<rparr>"
  obtain buf' where p: "playback_copy_packet r dma (playback dev) ?ctx1 off s (s * SL3_BYTES_PER_FRAME) =
           Some ((playback dev)\<lparr>hwptr := hwptr (playback dev) + s,
                   transfer_done := transfer_done (playback dev) + s\<rparr>,
                 ?ctx1\<lparr>buffer := buf'\<rparr>)"
    using playback_copy_packet_ring [OF assms(3)] by blast
  have "fill_playback_packet rt i (dev, ctx, ft, off) =
         Some (dev\<lparr>sample_accumulator := a,
                   playback := (playback dev)\<lparr>hwptr := hwptr (playback dev) + s,
                                 transfer_done := transfer_done (playback dev) + s\<rparr>\<rparr>,
               ?ctx1\<lparr>buffer := buf'\<rparr>,
               ft', off + s * SL3_BYTES_PER_FRAME)"
    using f c p by (simp add: fill_playback_packet_def Let_def)
  with f b show ?thesis by auto
qed



lemma memset_at_zero_prefix:
  assumes "take off buf = replicate off 0" and "off + n \<le> length buf"
  shows "take (off + n) (memset_at buf off 0 n) = replicate (off + n) 0"
proof -
  have "length (take off buf) = off" using assms(2) by simp
  then have "take (off + n) (take off buf @ replicate n 0 @ drop (off + n) buf)
           = take off buf @ replicate n 0"
    by (simp add: take_add)
  then show ?thesis using assms(1) by (simp add: memset_at_def memcpy_at_def replicate_add)
qed

lemma zero_prefix_slot:
  assumes "take t buf = replicate t (0 :: u8)" and "off + n \<le> t"
  shows "take n (drop off buf) = replicate n 0"
proof -
  have "take n (drop off buf) = take n (drop off (take t buf))"
    using assms(2) by (simp add: drop_take min_def)
  also have "\<dots> = replicate n 0" using assms by (simp add: min_def)
  finally show ?thesis .
qed

lemma no_ring_step:
  assumes nr: "rt = None \<or> (\<exists>r. rt = Some r \<and> dma_area r = None)"
    and i: "i < 8" and inv: "no_ring_inv dev i st"
  shows "\<exists>st'. fill_playback_packet rt i st = Some st' \<and> no_ring_inv dev (Suc i) st'"
proof -
  obtain d c ft off where st: "st = (d, c, ft, off)" by (cases st)
  from inv st have d: "d = dev\<lparr>sample_accumulator := sample_accumulator d\<rparr>"
    and off: "unat off \<le> 126 * i"
    and lb: "length (buffer c) = 1008"
    and ld: "length (iso_frame_desc c) = 8"
    and z: "take (unat off) (buffer c) = replicate (unat off) 0"
    and sl: "\<forall>j<i. unat (desc_offset (iso_frame_desc c ! j))
                 + unat (desc_length (iso_frame_desc c ! j)) \<le> unat off"
    by (auto simp add: no_ring_inv_def SL3_URB_BUFFER_SIZE_def SL3_ISO_PACKETS_def SL3_MAX_PACKET_SIZE_def)
  obtain s ft' a where s7: "unat s \<le> 7"
    and step: "fill_playback_packet rt i (d, c, ft, off) =
         Some (d\<lparr>sample_accumulator := a\<rparr>,
               c\<lparr>iso_frame_desc := (iso_frame_desc c)
                        [i := (iso_frame_desc c ! i)\<lparr>desc_offset := off,
                                desc_length := s * SL3_BYTES_PER_FRAME\<rparr>],
                   buffer := memset_at (buffer c) (unat off) 0 (unat (s * SL3_BYTES_PER_FRAME))\<rparr>,
               ft', off + s * SL3_BYTES_PER_FRAME)"
    using fill_playback_packet_no_ring [OF nr, of i d ft c off] by blast
  let ?b = "s * SL3_BYTES_PER_FRAME"
  have b: "unat ?b = unat s * 18" using s7 by (rule unat_frames_to_bytes)
  have b126: "unat ?b \<le> 126" using b s7 by simp
  have off1008: "unat off \<le> 1008" using off i by simp
  have o': "unat (off + ?b) = unat off + unat ?b" using off1008 b126 by (rule unat_offset_add)
  have fit: "unat off + unat ?b \<le> length (buffer c)" using off i b126 lb by simp
  have z': "take (unat (off + ?b)) (memset_at (buffer c) (unat off) 0 (unat ?b))
              = replicate (unat (off + ?b)) 0"
    unfolding o' using z fit by (rule memset_at_zero_prefix)
  have len': "length (memset_at (buffer c) (unat off) 0 (unat ?b)) = 1008"
    using fit lb by (simp add: length_memset_at)
  have bound': "unat (off + ?b) \<le> 126 * Suc i" using o' off b126 by simp
  have sl': "\<forall>j<Suc i. unat (desc_offset ((iso_frame_desc c)
                        [i := (iso_frame_desc c ! i)\<lparr>desc_offset := off, desc_length := ?b\<rparr>] ! j))
                 + unat (desc_length ((iso_frame_desc c)
                        [i := (iso_frame_desc c ! i)\<lparr>desc_offset := off, desc_length := ?b\<rparr>] ! j))
                 \<le> unat (off + ?b)"
  proof (intro allI impI)
    fix j assume "j < Suc i"
    then consider "j = i" | "j < i" by linarith
    then show "unat (desc_offset ((iso_frame_desc c)
                        [i := (iso_frame_desc c ! i)\<lparr>desc_offset := off, desc_length := ?b\<rparr>] ! j))
                 + unat (desc_length ((iso_frame_desc c)
                        [i := (iso_frame_desc c ! i)\<lparr>desc_offset := off, desc_length := ?b\<rparr>] ! j))
                 \<le> unat (off + ?b)"
    proof cases
      case 1
      then show ?thesis using ld i o' by simp
    next
      case 2
      then have "unat (desc_offset (iso_frame_desc c ! j))
                 + unat (desc_length (iso_frame_desc c ! j)) \<le> unat off"
        using sl by blast
      then show ?thesis using 2 o' by simp
    qed
  qed
  have "no_ring_inv dev (Suc i) (d\<lparr>sample_accumulator := a\<rparr>,
               c\<lparr>iso_frame_desc := (iso_frame_desc c)
                        [i := (iso_frame_desc c ! i)\<lparr>desc_offset := off, desc_length := ?b\<rparr>],
                   buffer := memset_at (buffer c) (unat off) 0 (unat ?b)\<rparr>,
               ft', off + ?b)"
  proof -
    have "d\<lparr>sample_accumulator := a\<rparr> = dev\<lparr>sample_accumulator := a\<rparr>"
      by (subst d) simp
    then show ?thesis
      unfolding no_ring_inv_def using bound' len' ld z' sl'
      by (simp add: SL3_URB_BUFFER_SIZE_def SL3_ISO_PACKETS_def SL3_MAX_PACKET_SIZE_def)
  qed
  with step st show ?thesis by simp
qed


lemma fill_playback_urb_no_ring:
  assumes nr: "runtime_of (substream (playback dev)) = None
               \<or> (\<exists>r. runtime_of (substream (playback dev)) = Some r \<and> dma_area r = None)"
    and lb: "length (buffer ctx) = SL3_URB_BUFFER_SIZE"
    and ld: "length (iso_frame_desc ctx) = SL3_ISO_PACKETS"
  shows "\<exists>dev' ctx'. sl3_fill_playback_urb dev ctx = Some (dev', ctx')
      \<and> dev' = dev\<lparr>sample_accumulator := sample_accumulator dev'\<rparr>
      \<and> length (buffer ctx') = SL3_URB_BUFFER_SIZE
      \<and> length (iso_frame_desc ctx') = SL3_ISO_PACKETS
      \<and> unat (transfer_buffer_length ctx') \<le> SL3_URB_BUFFER_SIZE
      \<and> take (unat (transfer_buffer_length ctx')) (buffer ctx')
           = replicate (unat (transfer_buffer_length ctx')) 0
      \<and> (\<forall>j<SL3_ISO_PACKETS. unat (desc_offset (iso_frame_desc ctx' ! j))
                  + unat (desc_length (iso_frame_desc ctx' ! j))
                  \<le> unat (transfer_buffer_length ctx'))"
proof -
  let ?rt = "runtime_of (substream (playback dev))"
  have init: "no_ring_inv dev 0 (dev, ctx, feedback_samples dev, 0)"
    unfolding no_ring_inv_def using lb ld
    by simp
  have "\<exists>st'. for_each [0..<8] (fill_playback_packet ?rt) (dev, ctx, feedback_samples dev, 0) = Some st'
           \<and> no_ring_inv dev 8 st'"
  proof (rule for_each_upt_inv [where I = "no_ring_inv dev", OF init])
    fix i s assume "i < 8" and "no_ring_inv dev i s"
    then show "\<exists>s'. fill_playback_packet ?rt i s = Some s' \<and> no_ring_inv dev (Suc i) s'"
      by (rule no_ring_step [OF nr])
  qed simp
  then obtain d c ft off where
    run: "for_each [0..<8] (fill_playback_packet ?rt) (dev, ctx, feedback_samples dev, 0) = Some (d, c, ft, off)"
    and inv: "no_ring_inv dev 8 (d, c, ft, off)"
    by (metis prod_cases4)
  have res: "sl3_fill_playback_urb dev ctx = Some (d, c\<lparr>transfer_buffer_length := off\<rparr>)"
    using run by (simp add: sl3_fill_playback_urb_def SL3_ISO_PACKETS_def Let_def)
  show ?thesis
    apply (rule exI [of _ d], rule exI [of _ "c\<lparr>transfer_buffer_length := off\<rparr>"])
    using res inv
    by (auto simp add: no_ring_inv_def SL3_URB_BUFFER_SIZE_def SL3_ISO_PACKETS_def SL3_MAX_PACKET_SIZE_def)
qed



lemma ring_step:
  assumes rt: "rt = Some r" and dma: "dma_area r = Some dma"
    and bs: "(of_nat (buffer_size r) :: u32) \<noteq> 0"
    and i: "i < 8" and inv: "ring_inv dev i st"
  shows "\<exists>st'. fill_playback_packet rt i st = Some st' \<and> ring_inv dev (Suc i) st'"
proof -
  obtain d c ft off where st: "st = (d, c, ft, off)" by (cases st)
  let ?n = "unat off div 18"
  from inv st have d: "d = dev\<lparr>sample_accumulator := sample_accumulator d,
                playback := (playback dev)
                  \<lparr>hwptr := hwptr (playback dev) + of_nat ?n,
                   transfer_done := transfer_done (playback dev) + of_nat ?n\<rparr>\<rparr>"
    and off: "unat off \<le> 126 * i"
    and dv: "18 dvd unat off"
    and ld: "length (iso_frame_desc c) = 8"
    and sm: "(\<Sum>j<i. unat (desc_length (iso_frame_desc c ! j))) = unat off"
    by (simp_all add: ring_inv_def SL3_ISO_PACKETS_def)
  obtain s ft' a buf' where s7: "unat s \<le> 7"
    and step: "fill_playback_packet rt i (d, c, ft, off) =
         Some (d\<lparr>sample_accumulator := a,
                   playback := (playback d)\<lparr>hwptr := hwptr (playback d) + s,
                                 transfer_done := transfer_done (playback d) + s\<rparr>\<rparr>,
               c\<lparr>iso_frame_desc := (iso_frame_desc c)
                        [i := (iso_frame_desc c ! i)\<lparr>desc_offset := off,
                                desc_length := s * SL3_BYTES_PER_FRAME\<rparr>],
                   buffer := buf'\<rparr>,
               ft', off + s * SL3_BYTES_PER_FRAME)"
    using fill_playback_packet_ring [OF rt dma bs, of i d ft c off] by blast
  let ?b = "s * SL3_BYTES_PER_FRAME"
  let ?descs = "(iso_frame_desc c)[i := (iso_frame_desc c ! i)\<lparr>desc_offset := off, desc_length := ?b\<rparr>]"
  have b: "unat ?b = unat s * 18" using s7 by (rule unat_frames_to_bytes)
  have b126: "unat ?b \<le> 126" using b s7 by simp
  have off1008: "unat off \<le> 1008" using off i by simp
  have o': "unat (off + ?b) = unat off + unat s * 18"
    using unat_offset_add [OF off1008 b126] b by simp
  have n': "unat (off + ?b) div 18 = ?n + unat s" using o' dv by (simp add: div_plus_div_distrib_dvd_left)
  have w: "(of_nat (?n + unat s) :: u32) = of_nat ?n + s" by simp
  have pd: "playback d = (playback dev)
                  \<lparr>hwptr := hwptr (playback dev) + of_nat ?n,
                   transfer_done := transfer_done (playback dev) + of_nat ?n\<rparr>"
    by (subst d) simp
  have dev': "d\<lparr>sample_accumulator := a,
                   playback := (playback d)\<lparr>hwptr := hwptr (playback d) + s,
                                 transfer_done := transfer_done (playback d) + s\<rparr>\<rparr>
        = dev\<lparr>sample_accumulator := a,
                playback := (playback dev)
                  \<lparr>hwptr := hwptr (playback dev) + of_nat (unat (off + ?b) div 18),
                   transfer_done := transfer_done (playback dev) + of_nat (unat (off + ?b) div 18)\<rparr>\<rparr>"
    unfolding n' w pd by (subst d) (simp add: add.assoc)
  have sm': "(\<Sum>j<Suc i. unat (desc_length (?descs ! j))) = unat (off + ?b)"
  proof -
    have "(\<Sum>j<i. unat (desc_length (?descs ! j))) = (\<Sum>j<i. unat (desc_length (iso_frame_desc c ! j)))"
      by (rule sum.cong) simp_all
    moreover have "unat (desc_length (?descs ! i)) = unat ?b" using ld i by simp
    ultimately show ?thesis using sm o' b by simp
  qed
  have "ring_inv dev (Suc i) (d\<lparr>sample_accumulator := a,
                   playback := (playback d)\<lparr>hwptr := hwptr (playback d) + s,
                                 transfer_done := transfer_done (playback d) + s\<rparr>\<rparr>,
               c\<lparr>iso_frame_desc := ?descs, buffer := buf'\<rparr>,
               ft', off + ?b)"
    unfolding ring_inv_def dev' using o' off s7 dv ld sm'
    by (simp add: SL3_ISO_PACKETS_def)
  with step st show ?thesis by simp
qed

lemma fill_playback_urb_ring:
  assumes rt: "runtime_of (substream (playback dev)) = Some r" and dma: "dma_area r = Some dma"
    and bs: "(of_nat (buffer_size r) :: u32) \<noteq> 0"
    and ld: "length (iso_frame_desc ctx) = SL3_ISO_PACKETS"
  shows "\<exists>dev' ctx'. sl3_fill_playback_urb dev ctx = Some (dev', ctx')
      \<and> dev' = dev\<lparr>sample_accumulator := sample_accumulator dev',
                playback := (playback dev)
                  \<lparr>hwptr := hwptr (playback dev) + of_nat (unat (transfer_buffer_length ctx') div 18),
                   transfer_done := transfer_done (playback dev)
                                     + of_nat (unat (transfer_buffer_length ctx') div 18)\<rparr>\<rparr>
      \<and> unat (transfer_buffer_length ctx') \<le> SL3_URB_BUFFER_SIZE
      \<and> length (iso_frame_desc ctx') = SL3_ISO_PACKETS
      \<and> (\<Sum>j<SL3_ISO_PACKETS. unat (desc_length (iso_frame_desc ctx' ! j)))
           = unat (transfer_buffer_length ctx')"
proof -
  let ?rt = "runtime_of (substream (playback dev))"
  have init: "ring_inv dev 0 (dev, ctx, feedback_samples dev, 0)"
    unfolding ring_inv_def using ld by simp
  have "\<exists>st'. for_each [0..<8] (fill_playback_packet ?rt) (dev, ctx, feedback_samples dev, 0) = Some st'
           \<and> ring_inv dev 8 st'"
  proof (rule for_each_upt_inv [where I = "ring_inv dev", OF init])
    fix i s assume "i < 8" and "ring_inv dev i s"
    then show "\<exists>s'. fill_playback_packet ?rt i s = Some s' \<and> ring_inv dev (Suc i) s'"
      by (rule ring_step [OF rt dma bs])
  qed simp
  then obtain d c ft off where
    run: "for_each [0..<8] (fill_playback_packet ?rt) (dev, ctx, feedback_samples dev, 0) = Some (d, c, ft, off)"
    and inv: "ring_inv dev 8 (d, c, ft, off)"
    by (metis prod_cases4)
  have res: "sl3_fill_playback_urb dev ctx = Some (d, c\<lparr>transfer_buffer_length := off\<rparr>)"
    using run by (simp add: sl3_fill_playback_urb_def SL3_ISO_PACKETS_def Let_def)
  show ?thesis
    apply (rule exI [of _ d], rule exI [of _ "c\<lparr>transfer_buffer_length := off\<rparr>"])
    using res inv
    by (simp add: ring_inv_def SL3_URB_BUFFER_SIZE_def SL3_ISO_PACKETS_def SL3_MAX_PACKET_SIZE_def)
qed



lemma ceil_share_bounds:
  fixes ft r :: nat
  assumes "1 \<le> r" and "r \<le> 8" and "r \<le> ft" and "ft \<le> 7 * r"
  shows "1 \<le> (ft + r - 1) div r" and "(ft + r - 1) div r \<le> 7"
    and "(ft + r - 1) div r \<le> ft"
    and "r - 1 \<le> ft - (ft + r - 1) div r"
    and "ft - (ft + r - 1) div r \<le> 7 * (r - 1)"
proof -
  from assms(1,2) have "r = 1 \<or> r = 2 \<or> r = 3 \<or> r = 4 \<or> r = 5 \<or> r = 6 \<or> r = 7 \<or> r = 8"
    by arith
  then have "1 \<le> (ft + r - 1) div r \<and> (ft + r - 1) div r \<le> 7
    \<and> (ft + r - 1) div r \<le> ft
    \<and> r - 1 \<le> ft - (ft + r - 1) div r
    \<and> ft - (ft + r - 1) div r \<le> 7 * (r - 1)"
    using assms(3,4) by (elim disjE) (simp_all, arith+)
  then show "1 \<le> (ft + r - 1) div r" and "(ft + r - 1) div r \<le> 7"
    and "(ft + r - 1) div r \<le> ft"
    and "r - 1 \<le> ft - (ft + r - 1) div r"
    and "ft - (ft + r - 1) div r \<le> 7 * (r - 1)"
    by simp_all
qed

lemma unat_ceil_share:
  fixes ft :: u32
  assumes "1 \<le> r" and "r \<le> 8" and "unat ft \<le> 56"
  shows "unat ((ft + of_nat r - 1) div of_nat r) = (unat ft + r - 1) div r"
proof -
  have r: "unat (of_nat r :: u32) = r" using assms(2) by (simp add: unat_of_nat)
  have "unat ft + unat (of_nat r :: u32) < 2 ^ LENGTH(32)" using assms r by simp
  then have "unat (ft + of_nat r) = unat ft + unat (of_nat r :: u32)" by (simp only: unat_add_lem)
  then have a: "unat (ft + of_nat r) = unat ft + r" using r by simp
  have "(1 :: u32) \<le> ft + of_nat r" using a assms(1) by (simp add: word_le_nat_alt)
  then have "unat (ft + of_nat r - 1) = unat (ft + of_nat r) - unat (1 :: u32)" by (rule unat_sub)
  then have "unat (ft + of_nat r - 1) = unat ft + r - 1" using a by simp
  then show ?thesis using r by (simp add: unat_div)
qed



lemma fill_playback_packet_any:
  assumes "ring_ok rt"
  shows "\<exists>s ft' a p buf'. unat s \<le> 7
     \<and> fill_packet_samples i dev ft = (s, ft', dev\<lparr>sample_accumulator := a\<rparr>)
     \<and> fill_playback_packet rt i (dev, ctx, ft, off) =
         Some (dev\<lparr>sample_accumulator := a, playback := p\<rparr>,
               ctx\<lparr>iso_frame_desc := (iso_frame_desc ctx)
                        [i := (iso_frame_desc ctx ! i)\<lparr>desc_offset := off,
                                desc_length := s * SL3_BYTES_PER_FRAME\<rparr>],
                   buffer := buf'\<rparr>,
               ft', off + s * SL3_BYTES_PER_FRAME)"
proof (cases "rt = None \<or> (\<exists>r. rt = Some r \<and> dma_area r = None)")
  case True
  from fill_playback_packet_no_ring [OF True, of i dev ft ctx off]
  obtain s ft' a where h: "unat s \<le> 7"
     "fill_packet_samples i dev ft = (s, ft', dev\<lparr>sample_accumulator := a\<rparr>)"
     "fill_playback_packet rt i (dev, ctx, ft, off) =
         Some (dev\<lparr>sample_accumulator := a\<rparr>,
               ctx\<lparr>iso_frame_desc := (iso_frame_desc ctx)
                        [i := (iso_frame_desc ctx ! i)\<lparr>desc_offset := off,
                                desc_length := s * SL3_BYTES_PER_FRAME\<rparr>],
                   buffer := memset_at (buffer ctx) (unat off) 0 (unat (s * SL3_BYTES_PER_FRAME))\<rparr>,
               ft', off + s * SL3_BYTES_PER_FRAME)"
    by blast
  have "dev\<lparr>sample_accumulator := a\<rparr> = dev\<lparr>sample_accumulator := a, playback := playback dev\<rparr>"
    by simp
  with h show ?thesis by metis
next
  case False
  then obtain r dma where "rt = Some r" "dma_area r = Some dma" by auto
  moreover from this assms have "(of_nat (buffer_size r) :: u32) \<noteq> 0" by (simp add: ring_ok_def)
  ultimately show ?thesis using fill_playback_packet_ring [of rt r dma i dev ft ctx off] by metis
qed

lemma fill_packet_samples_feedback:
  assumes run: "running (capture dev)" and i: "i < 8"
    and lo: "8 - i \<le> unat ft" and hi: "unat ft \<le> 7 * (8 - i)"
  shows "\<exists>s. fill_packet_samples i dev ft = (s, ft - s, dev)
           \<and> unat s = min 7 ((unat ft + (8 - Suc i)) div Suc (8 - Suc i))
           \<and> unat (ft - s) = unat ft - unat s
           \<and> 8 - Suc i \<le> unat (ft - s) \<and> unat (ft - s) \<le> 7 * (8 - Suc i)"
proof -
  let ?r = "8 - i"
  let ?c = "(unat ft + ?r - 1) div ?r"
  have r1: "1 \<le> ?r" and r8: "?r \<le> 8" using i by simp_all
  have ft56: "unat ft \<le> 56" using hi by simp
  define s where "s = (ft + of_nat ?r - 1) div of_nat ?r"
  have us: "unat s = ?c" unfolding s_def using r1 r8 ft56 by (rule unat_ceil_share)
  note b = ceil_share_bounds [OF r1 r8 lo hi]
  have s7: "\<not> 7 < s" using us b(2) by (simp add: word_less_nat_alt)
  have pos: "0 < ft" using lo i by (simp add: word_less_nat_alt)
  have sle: "s \<le> ft" using us b(3) by (simp add: word_le_nat_alt)
  have sub: "unat (ft - s) = unat ft - unat s" using sle by (rule unat_sub)
  have eq: "fill_packet_samples i dev ft = (s, ft - s, dev)"
    using run pos s7
    by (simp add: fill_packet_samples_def max_frames_per_packet Let_def s_def SL3_ISO_PACKETS_def)
  have n1: "unat ft + (8 - Suc i) = unat ft + ?r - 1" using i by arith
  have n2: "Suc (8 - Suc i) = ?r" using i by arith
  have n3: "8 - Suc i = ?r - 1" by arith
  have "min 7 ?c = ?c" using b(2) by (rule min_absorb2)
  then have m: "unat s = min 7 ((unat ft + (8 - Suc i)) div Suc (8 - Suc i))"
    by (simp only: n1 n2 us)
  have lo': "8 - Suc i \<le> unat (ft - s)" by (simp only: n3 sub us b(4))
  have hi': "unat (ft - s) \<le> 7 * (8 - Suc i)" by (simp only: n3 sub us b(5))
  show ?thesis using eq m sub lo' hi' by blast
qed



lemma fb_step:
  assumes ok: "ring_ok rt" and i: "i < 8" and inv: "fb_inv dev F i st"
  shows "\<exists>st'. fill_playback_packet rt i st = Some st' \<and> fb_inv dev F (Suc i) st'"
proof -
  obtain d c ft off where st: "st = (d, c, ft, off)" by (cases st)
  from inv st have acc: "sample_accumulator d = sample_accumulator dev"
    and run: "running (capture d)"
    and lo: "8 - i \<le> unat ft" and hi: "unat ft \<le> 7 * (8 - i)"
    and off: "unat off \<le> 126 * i"
    and ld: "length (iso_frame_desc c) = 8"
    and sizes: "map (\<lambda>d. unat (desc_length d)) (take i (iso_frame_desc c))
         @ map (\<lambda>s. s * 18) (feedback_sizes (unat ft) (8 - i))
       = map (\<lambda>s. s * 18) (feedback_sizes F 8)"
    and sm: "(\<Sum>j<i. unat (desc_length (iso_frame_desc c ! j))) = unat off"
    by (simp_all add: fb_inv_def SL3_ISO_PACKETS_def)
  obtain s0 where f0: "fill_packet_samples i d ft = (s0, ft - s0, d)"
    and us: "unat s0 = min 7 ((unat ft + (8 - Suc i)) div Suc (8 - Suc i))"
    and sub: "unat (ft - s0) = unat ft - unat s0"
    and lo': "8 - Suc i \<le> unat (ft - s0)" and hi': "unat (ft - s0) \<le> 7 * (8 - Suc i)"
    using fill_packet_samples_feedback [OF run i lo hi] by blast
  obtain s ft' a p buf' where s7: "unat s \<le> 7"
    and f: "fill_packet_samples i d ft = (s, ft', d\<lparr>sample_accumulator := a\<rparr>)"
    and step: "fill_playback_packet rt i (d, c, ft, off) =
         Some (d\<lparr>sample_accumulator := a, playback := p\<rparr>,
               c\<lparr>iso_frame_desc := (iso_frame_desc c)
                        [i := (iso_frame_desc c ! i)\<lparr>desc_offset := off,
                                desc_length := s * SL3_BYTES_PER_FRAME\<rparr>],
                   buffer := buf'\<rparr>,
               ft', off + s * SL3_BYTES_PER_FRAME)"
    using fill_playback_packet_any [OF ok, of i d ft c off] by blast
  have "(s, ft', d\<lparr>sample_accumulator := a\<rparr>) = (s0, ft - s0, d)"
    using f [symmetric] f0 by (rule trans)
  then have s: "s = s0" and ft': "ft' = ft - s0" and da: "d\<lparr>sample_accumulator := a\<rparr> = d"
    by blast+
  from da have "sample_accumulator (d\<lparr>sample_accumulator := a\<rparr>) = sample_accumulator d"
    by (simp only:)
  then have a: "a = sample_accumulator dev" using acc by simp
  let ?b = "s * SL3_BYTES_PER_FRAME"
  let ?descs = "(iso_frame_desc c)[i := (iso_frame_desc c ! i)\<lparr>desc_offset := off, desc_length := ?b\<rparr>]"
  have b: "unat ?b = unat s * 18" using s7 by (rule unat_frames_to_bytes)
  have b126: "unat ?b \<le> 126" using b s7 by simp
  have off1008: "unat off \<le> 1008" using off i by simp
  have o': "unat (off + ?b) = unat off + unat s * 18"
    using unat_offset_add [OF off1008 b126] b by simp
  have tk: "take (Suc i) ?descs = take i (iso_frame_desc c) @ [?descs ! i]"
    using ld i by (simp add: take_Suc_conv_app_nth)
  have di: "unat (desc_length (?descs ! i)) = unat s * 18" using ld i b by simp
  have r: "8 - i = Suc (8 - Suc i)" using i by arith
  have fs: "feedback_sizes (unat ft) (8 - i)
              = unat s # feedback_sizes (unat (ft - s)) (8 - Suc i)"
    unfolding r using us sub s by (simp add: Let_def)
  have sizes': "map (\<lambda>d. unat (desc_length d)) (take (Suc i) ?descs)
         @ map (\<lambda>s. s * 18) (feedback_sizes (unat (ft - s)) (8 - Suc i))
       = map (\<lambda>s. s * 18) (feedback_sizes F 8)"
    using sizes unfolding tk fs by (simp add: di)
  have sm': "(\<Sum>j<Suc i. unat (desc_length (?descs ! j))) = unat (off + ?b)"
  proof -
    have "(\<Sum>j<i. unat (desc_length (?descs ! j))) = (\<Sum>j<i. unat (desc_length (iso_frame_desc c ! j)))"
      by (rule sum.cong) simp_all
    then show ?thesis using sm o' di by simp
  qed
  have "fb_inv dev F (Suc i) (d\<lparr>sample_accumulator := a, playback := p\<rparr>,
               c\<lparr>iso_frame_desc := ?descs, buffer := buf'\<rparr>, ft - s, off + ?b)"
    unfolding fb_inv_def using a run lo' hi' s o' off s7 ld sizes' sm'
    by (simp add: SL3_ISO_PACKETS_def)
  with step st ft' s show ?thesis by simp
qed

lemma feedback_sizes_sum:
  assumes "r \<le> 8" and "r \<le> F" and "F \<le> 7 * r"
  shows "sum_list (feedback_sizes F r) = F \<and> (\<forall>s \<in> set (feedback_sizes F r). 1 \<le> s \<and> s \<le> 7)
         \<and> length (feedback_sizes F r) = r"
  using assms
proof (induction r arbitrary: F)
  case 0
  then show ?case by simp
next
  case (Suc r)
  let ?c = "(F + Suc r - 1) div Suc r"
  have r1: "1 \<le> Suc r" by simp
  note b = ceil_share_bounds [OF r1 Suc.prems]
  have c: "min 7 ((F + r) div Suc r) = ?c" using b(2) by simp
  have fs: "feedback_sizes F (Suc r) = ?c # feedback_sizes (F - ?c) r"
    using c by (simp add: Let_def)
  have ih: "sum_list (feedback_sizes (F - ?c) r) = F - ?c
        \<and> (\<forall>s \<in> set (feedback_sizes (F - ?c) r). 1 \<le> s \<and> s \<le> 7)
        \<and> length (feedback_sizes (F - ?c) r) = r"
    using Suc.IH [of "F - ?c"] b(4,5) Suc.prems(1) by simp
  show ?case unfolding fs using ih b(1,2,3) by simp
qed

section \<open>Packet sizes of a fill\<close>

lemma fill_packet_samples_playback:
  "fill_packet_samples i (dev\<lparr>playback := p\<rparr>) ft
     = (case fill_packet_samples i dev ft of (s, ft', dev') \<Rightarrow> (s, ft', dev'\<lparr>playback := p\<rparr>))"
  by (simp add: fill_packet_samples_def sl3_next_packet_samples_def Let_def)

lemma fill_samples_playback:
  "fill_samples is (dev\<lparr>playback := p\<rparr>) ft = fill_samples is dev ft"
proof (induction "is" arbitrary: dev ft)
  case Nil
  then show ?case by simp
next
  case (Cons i "is")
  obtain s ft' dev' where f: "fill_packet_samples i dev ft = (s, ft', dev')"
    by (cases "fill_packet_samples i dev ft")
  then have "fill_packet_samples i (dev\<lparr>playback := p\<rparr>) ft = (s, ft', dev'\<lparr>playback := p\<rparr>)"
    by (simp add: fill_packet_samples_playback)
  with f Cons.IH [of dev' ft'] show ?case by simp
qed

lemma fill_samples_bound:
  "length (fill_samples is dev ft) = length is \<and> (\<forall>s \<in> set (fill_samples is dev ft). unat s \<le> 7)"
proof (induction "is" arbitrary: dev ft)
  case Nil
  then show ?case by simp
next
  case (Cons i "is")
  obtain s ft' a where f: "fill_packet_samples i dev ft = (s, ft', dev\<lparr>sample_accumulator := a\<rparr>)"
    and b: "unat s \<le> 7"
    using fill_packet_samples_frame [of i dev ft] by blast
  with Cons.IH [of "dev\<lparr>sample_accumulator := a\<rparr>" ft'] show ?case by simp
qed

lemma fill_samples_pattern:
  assumes "\<not> running (capture dev) \<or> ft = 0"
  shows "fill_samples is dev ft = fst (next_samples_calls (length is) dev)"
  using assms
proof (induction "is" arbitrary: dev)
  case Nil
  then show ?case by simp
next
  case (Cons i "is")
  obtain s a where n: "sl3_next_packet_samples dev = (s, dev\<lparr>sample_accumulator := a\<rparr>)"
    using next_packet_samples_frame [of dev] by blast
  have f: "fill_packet_samples i dev ft = (s, ft, dev\<lparr>sample_accumulator := a\<rparr>)"
    using Cons.prems n by (auto simp add: fill_packet_samples_def)
  have "\<not> running (capture (dev\<lparr>sample_accumulator := a\<rparr>)) \<or> ft = 0"
    using Cons.prems by simp
  from Cons.IH [OF this] f n show ?case by (simp add: split_def Let_def)
qed

lemma size_step:
  assumes ok: "ring_ok rt" and i: "i < 8" and inv: "size_inv S i st"
  shows "\<exists>st'. fill_playback_packet rt i st = Some st' \<and> size_inv S (Suc i) st'"
proof -
  obtain d c ft off where st: "st = (d, c, ft, off)" by (cases st)
  from inv st have ld: "length (iso_frame_desc c) = 8"
    and off: "unat off \<le> 126 * i"
    and sizes: "map desc_length (take i (iso_frame_desc c))
         @ map (\<lambda>s. s * SL3_BYTES_PER_FRAME) (fill_samples [i..<8] d ft)
       = map (\<lambda>s. s * SL3_BYTES_PER_FRAME) S"
    and offs: "\<forall>j<i. unat (desc_offset (iso_frame_desc c ! j))
                 = (\<Sum>k<j. unat (desc_length (iso_frame_desc c ! k)))"
    and sm: "(\<Sum>k<i. unat (desc_length (iso_frame_desc c ! k))) = unat off"
    by (simp_all add: size_inv_def SL3_ISO_PACKETS_def)
  obtain s ft' a p buf' where s7: "unat s \<le> 7"
    and f: "fill_packet_samples i d ft = (s, ft', d\<lparr>sample_accumulator := a\<rparr>)"
    and step: "fill_playback_packet rt i (d, c, ft, off) =
         Some (d\<lparr>sample_accumulator := a, playback := p\<rparr>,
               c\<lparr>iso_frame_desc := (iso_frame_desc c)
                        [i := (iso_frame_desc c ! i)\<lparr>desc_offset := off,
                                desc_length := s * SL3_BYTES_PER_FRAME\<rparr>],
                   buffer := buf'\<rparr>,
               ft', off + s * SL3_BYTES_PER_FRAME)"
    using fill_playback_packet_any [OF ok, of i d ft c off] by blast
  let ?b = "s * SL3_BYTES_PER_FRAME"
  let ?descs = "(iso_frame_desc c)[i := (iso_frame_desc c ! i)\<lparr>desc_offset := off, desc_length := ?b\<rparr>]"
  let ?d' = "d\<lparr>sample_accumulator := a, playback := p\<rparr>"
  have b: "unat ?b = unat s * 18" using s7 by (rule unat_frames_to_bytes)
  have b126: "unat ?b \<le> 126" using b s7 by simp
  have off1008: "unat off \<le> 1008" using off i by simp
  have o': "unat (off + ?b) = unat off + unat ?b"
    using off1008 b126 by (rule unat_offset_add)
  have up: "[i..<8] = i # [Suc i..<8]" using i by (simp add: upt_conv_Cons)
  have fs: "fill_samples [i..<8] d ft = s # fill_samples [Suc i..<8] ?d' ft'"
    unfolding up using f by (simp add: fill_samples_playback)
  have tk: "take (Suc i) ?descs = take i (iso_frame_desc c) @ [?descs ! i]"
    using ld i by (simp add: take_Suc_conv_app_nth)
  have di: "desc_length (?descs ! i) = ?b" "desc_offset (?descs ! i) = off" using ld i by simp_all
  have sizes': "map desc_length (take (Suc i) ?descs)
         @ map (\<lambda>s. s * SL3_BYTES_PER_FRAME) (fill_samples [Suc i..<8] ?d' ft')
       = map (\<lambda>s. s * SL3_BYTES_PER_FRAME) S"
    using sizes unfolding tk fs by (simp add: di)
  have same: "(\<Sum>k<j. unat (desc_length (?descs ! k))) = (\<Sum>k<j. unat (desc_length (iso_frame_desc c ! k)))"
    if "j \<le> i" for j
    using that by (intro sum.cong) simp_all
  have sm': "(\<Sum>k<Suc i. unat (desc_length (?descs ! k))) = unat (off + ?b)"
    using same [of i] sm o' di by simp
  have offs': "\<forall>j<Suc i. unat (desc_offset (?descs ! j)) = (\<Sum>k<j. unat (desc_length (?descs ! k)))"
  proof (intro allI impI)
    fix j assume j: "j < Suc i"
    show "unat (desc_offset (?descs ! j)) = (\<Sum>k<j. unat (desc_length (?descs ! k)))"
    proof (cases "j = i")
      case True
      then show ?thesis using same [of i] sm di by simp
    next
      case False
      then have ji: "j < i" using j by simp
      then have "?descs ! j = iso_frame_desc c ! j" by simp
      then show ?thesis using offs ji same [of j] by simp
    qed
  qed
  have "unat (off + ?b) \<le> 126 * Suc i" using o' off b126 by simp
  then have "size_inv S (Suc i) (?d', c\<lparr>iso_frame_desc := ?descs, buffer := buf'\<rparr>, ft', off + ?b)"
    unfolding size_inv_def prod.case using ld sizes' offs' sm' by (simp add: SL3_ISO_PACKETS_def)
  with step st show ?thesis by simp
qed

lemma fill_playback_urb_sizes:
  assumes ok: "ring_ok (runtime_of (substream (playback dev)))"
    and ld: "length (iso_frame_desc ctx) = SL3_ISO_PACKETS"
  shows "\<exists>dev' ctx'. sl3_fill_playback_urb dev ctx = Some (dev', ctx')
      \<and> map desc_length (iso_frame_desc ctx')
          = map (\<lambda>s. s * SL3_BYTES_PER_FRAME) (fill_samples [0..<8] dev (feedback_samples dev))
      \<and> (\<forall>j<8. unat (desc_offset (iso_frame_desc ctx' ! j))
                 = (\<Sum>k<j. unat (desc_length (iso_frame_desc ctx' ! k))))
      \<and> unat (transfer_buffer_length ctx')
          = 18 * sum_list (map unat (fill_samples [0..<8] dev (feedback_samples dev)))"
proof -
  let ?rt = "runtime_of (substream (playback dev))"
  let ?S = "fill_samples [0..<8] dev (feedback_samples dev)"
  have init: "size_inv ?S 0 (dev, ctx, feedback_samples dev, 0)"
    unfolding size_inv_def using ld by simp
  have "\<exists>st'. for_each [0..<8] (fill_playback_packet ?rt) (dev, ctx, feedback_samples dev, 0) = Some st'
           \<and> size_inv ?S 8 st'"
  proof (rule for_each_upt_inv [where I = "size_inv ?S", OF init])
    fix i s assume "i < 8" and "size_inv ?S i s"
    then show "\<exists>s'. fill_playback_packet ?rt i s = Some s' \<and> size_inv ?S (Suc i) s'"
      by (rule size_step [OF ok])
  qed simp
  then obtain d c ft off where
    run: "for_each [0..<8] (fill_playback_packet ?rt) (dev, ctx, feedback_samples dev, 0) = Some (d, c, ft, off)"
    and inv: "size_inv ?S 8 (d, c, ft, off)"
    by (metis prod_cases4)
  have res: "sl3_fill_playback_urb dev ctx = Some (d, c\<lparr>transfer_buffer_length := off\<rparr>)"
    using run by (simp add: sl3_fill_playback_urb_def SL3_ISO_PACKETS_def Let_def)
  from inv have ldc: "length (iso_frame_desc c) = 8"
    and sizes8: "map desc_length (take 8 (iso_frame_desc c)) = map (\<lambda>s. s * SL3_BYTES_PER_FRAME) ?S"
    and offs: "\<forall>j<8. unat (desc_offset (iso_frame_desc c ! j))
                 = (\<Sum>k<j. unat (desc_length (iso_frame_desc c ! k)))"
    and sm: "(\<Sum>k<8. unat (desc_length (iso_frame_desc c ! k))) = unat off"
    by (auto simp add: size_inv_def SL3_ISO_PACKETS_def)
  have sizes: "map desc_length (iso_frame_desc c) = map (\<lambda>s. s * SL3_BYTES_PER_FRAME) ?S"
    using sizes8 ldc by simp
  have b7: "\<forall>s \<in> set ?S. unat s \<le> 7" using fill_samples_bound [of "[0..<8]"] by blast
  have "unat off = sum_list (map (\<lambda>d. unat (desc_length d)) (iso_frame_desc c))"
    using sm ldc by (simp add: sum_list_sum_nth atLeast0LessThan)
  also have "\<dots> = sum_list (map unat (map desc_length (iso_frame_desc c)))"
    by (simp add: comp_def)
  also have "\<dots> = sum_list (map (\<lambda>s. unat (s * SL3_BYTES_PER_FRAME)) ?S)"
    unfolding sizes by (simp add: comp_def)
  also have "\<dots> = sum_list (map (\<lambda>s. unat s * 18) ?S)"
    using b7 by (intro arg_cong [where f = sum_list] map_cong refl) (simp add: unat_frames_to_bytes)
  also have "\<dots> = 18 * sum_list (map unat ?S)"
    by (simp add: sum_list_mult_const comp_def)
  finally have tbl: "unat off = 18 * sum_list (map unat ?S)" .
  show ?thesis
    apply (rule exI [of _ d], rule exI [of _ "c\<lparr>transfer_buffer_length := off\<rparr>"])
    using res sizes offs tbl by simp
qed

lemma next_samples_calls_bounds:
  "\<forall>s \<in> set (fst (next_samples_calls n dev)). 5 \<le> unat s \<and> unat s \<le> 6"
proof (induction n arbitrary: dev)
  case 0
  then show ?case by simp
next
  case (Suc n)
  obtain s a where n: "sl3_next_packet_samples dev = (s, dev\<lparr>sample_accumulator := a\<rparr>)"
    and b: "5 \<le> unat s" "unat s \<le> 6"
    using next_packet_samples_frame [of dev] by blast
  with Suc.IH [of "dev\<lparr>sample_accumulator := a\<rparr>"] show ?case
    by (simp add: split_def Let_def)
qed

section \<open>HID reports\<close>

lemma hid_build_report_bytes:
  assumes "length buf = 64"
  shows "sl3_hid_build_report buf cmd (Some p) (int (length p))
           = [cmd, 0x1C, 0xC5, 0x00, 0x01] @ take 59 p @ replicate (59 - length p) 0
         \<and> sl3_hid_build_report buf cmd None n
           = [cmd, 0x1C, 0xC5, 0x00, 0x01] @ replicate 59 0
         \<and> length (sl3_hid_build_report buf cmd (Some p) (int (length p))) = 64"
proof -
  have hdr: "(memset_at buf 0 0 SL3_HID_REPORT_SIZE)
               [0 := cmd, 1 := 0x1C, 2 := 0xC5, 3 := 0x00, 4 := 0x01]
             = [cmd, 0x1C, 0xC5, 0x00, 0x01] @ replicate 59 0"
  proof -
    have "memset_at buf 0 0 SL3_HID_REPORT_SIZE = replicate 64 0"
      using assms by (simp add: SL3_HID_REPORT_SIZE_def memset_at_whole)
    then show ?thesis by (simp only: hid_header_prefix)
  qed
  have n: "take (nat (min (int (length p)) (int SL3_HID_REPORT_SIZE - 5))) p = take 59 p"
    by (simp add: SL3_HID_REPORT_SIZE_def min_def)
  have cp: "memcpy_at ([cmd, 0x1C, 0xC5, 0x00, 0x01] @ replicate 59 0) 5 (take 59 p)
            = [cmd, 0x1C, 0xC5, 0x00, 0x01] @ take 59 p @ replicate (59 - length p) 0"
    using memcpy_at_after_prefix
            [of 5 "[cmd, 0x1C, 0xC5, 0x00, 0x01]" "replicate 59 0" "take 59 p"]
    by (simp add: min_def)
  have some: "sl3_hid_build_report buf cmd (Some p) (int (length p))
           = [cmd, 0x1C, 0xC5, 0x00, 0x01] @ take 59 p @ replicate (59 - length p) 0"
  proof (cases "p = []")
    case True
    then show ?thesis using hdr by (simp add: sl3_hid_build_report_def hid_header_bytes)
  next
    case False
    then have "int (length p) > 0" by simp
    then show ?thesis using hdr cp
      by (simp add: sl3_hid_build_report_def hid_header_bytes n)
  qed
  have none: "sl3_hid_build_report buf cmd None n
           = [cmd, 0x1C, 0xC5, 0x00, 0x01] @ replicate 59 0"
    using hdr by (simp add: sl3_hid_build_report_def hid_header_bytes)
  have len: "length (sl3_hid_build_report buf cmd (Some p) (int (length p))) = 64"
    unfolding some by (simp add: min_def)
  from some none len show ?thesis by blast
qed

lemma routing_report:
  assumes "length buf = 64"
  shows "sl3_hid_build_report buf SL3_HID_CMD_ROUTING (Some [a, b, c]) 3
           = [0x33, 0x1C, 0xC5, 0x00, 0x01, a, b, c] @ replicate 56 0"
  using hid_build_report_bytes [OF assms, of SL3_HID_CMD_ROUTING "[a, b, c]" 0]
  by (simp add: SL3_HID_CMD_ROUTING_def)

lemma hid_set_routing_result:
  assumes "length (hid_out_buf dev) = 64"
  shows "sl3_hid_set_routing env pair mode dev =
     (if disconnected dev then (- ENODEV, dev, [])
      else (msg_err env,
            dev\<lparr>hid_out_buf := [0x33, 0x1C, 0xC5, 0x00, 0x01, of_int pair, 0x01, of_int mode] @ replicate 56 0\<rparr>,
            [Usb_interrupt_msg ([0x33, 0x1C, 0xC5, 0x00, 0x01, of_int pair, 0x01, of_int mode] @ replicate 56 0)]))"
  using routing_report [OF assms]
  by (simp add: sl3_hid_set_routing_def sl3_hid_send_cmd_locked_def Let_def)



lemma sint_small:
  fixes len :: u32
  assumes "len \<le> 64"
  shows "sint len = uint len" and "uint len \<le> 64"
proof -
  show u: "uint len \<le> 64" using assms by (simp add: word_le_def)
  have nn: "0 \<le> uint len" by simp
  have lo: "- (2 ^ 31) \<le> uint len"
  proof -
    have "- (2 ^ 31) \<le> (0 :: int)" by simp
    then show ?thesis using nn by (rule order_trans)
  qed
  have hi: "uint len < 2 ^ 31"
  proof -
    have "(64 :: int) < 2 ^ 31" by simp
    with u show ?thesis by (rule le_less_trans)
  qed
  have "signed_take_bit 31 (uint len) = uint len"
    using lo hi by (rule signed_take_bit_int_eq_self)
  then show "sint len = uint len" by (simp add: sint_uint)
qed

lemma mailbox_copy_length:
  fixes len :: u32
  assumes "len \<le> 64"
  shows "nat (min (sint len) (int SL3_HID_REPORT_SIZE)) = unat len"
proof -
  have "min (sint len) (int SL3_HID_REPORT_SIZE) = uint len"
    using sint_small [OF assms] by (simp add: SL3_HID_REPORT_SIZE_def)
  then show ?thesis by simp
qed

lemma memcpy_at_front:
  "memcpy_at dst 0 src = src @ drop (length src) dst"
  by (simp add: memcpy_at_def)

lemma hid_in_dispatch_cases:
  assumes d: "length (hid_in_buf dev) = 64"
    and c: "length (overload_status dev) = 6" "length (phono_status dev) = 3"
           "length (usb_port_status dev) = 4"
    and l: "len \<le> 64"
  shows "hid_in_buf dev ! 0 = 0x34 \<Longrightarrow> 11 \<le> len \<Longrightarrow> hid_in_dispatch len dev =
           (dev\<lparr>overload_status := take 6 (drop 5 (hid_in_buf dev))\<rparr>,
            if card dev \<and> overload_ctl dev then [Snd_ctl_notify Overload_Status] else [])"
    and "hid_in_buf dev ! 0 = 0x38 \<Longrightarrow> 8 \<le> len \<Longrightarrow> hid_in_dispatch len dev =
           (dev\<lparr>phono_status := take 3 (drop 5 (hid_in_buf dev))\<rparr>,
            if card dev \<and> phono_ctl dev then [Snd_ctl_notify Phono_Switch_Status] else [])"
    and "hid_in_buf dev ! 0 = 0x39 \<Longrightarrow> 9 \<le> len \<Longrightarrow> hid_in_dispatch len dev =
           (dev\<lparr>usb_port_status := take 4 (drop 5 (hid_in_buf dev))\<rparr>, [])"
    and "hid_in_buf dev ! 0 \<noteq> 0x34 \<Longrightarrow> hid_in_buf dev ! 0 \<noteq> 0x38 \<Longrightarrow> hid_in_buf dev ! 0 \<noteq> 0x39
         \<Longrightarrow> hid_in_dispatch len dev =
           (dev\<lparr>hid_response_buf := take (unat len) (hid_in_buf dev)
                                       @ drop (unat len) (hid_response_buf dev),
                 hid_response_complete := hid_response_complete dev + 1\<rparr>,
            [Complete_hid_response])"
    and "(hid_in_buf dev ! 0 = 0x34 \<and> len < 11) \<or> (hid_in_buf dev ! 0 = 0x38 \<and> len < 8)
           \<or> (hid_in_buf dev ! 0 = 0x39 \<and> len < 9)
         \<Longrightarrow> hid_in_dispatch len dev = (dev, [])"
proof -
  have n: "unat len \<le> 64" using l by (simp add: word_le_nat_alt)
  show "hid_in_buf dev ! 0 = 0x34 \<Longrightarrow> 11 \<le> len \<Longrightarrow> hid_in_dispatch len dev =
           (dev\<lparr>overload_status := take 6 (drop 5 (hid_in_buf dev))\<rparr>,
            if card dev \<and> overload_ctl dev then [Snd_ctl_notify Overload_Status] else [])"
    using d c by (simp add: hid_in_dispatch_def SL3_HID_NOTIFY_OVERLOAD_def memcpy_at_front)
  show "hid_in_buf dev ! 0 = 0x38 \<Longrightarrow> 8 \<le> len \<Longrightarrow> hid_in_dispatch len dev =
           (dev\<lparr>phono_status := take 3 (drop 5 (hid_in_buf dev))\<rparr>,
            if card dev \<and> phono_ctl dev then [Snd_ctl_notify Phono_Switch_Status] else [])"
    using d c by (simp add: hid_in_dispatch_def SL3_HID_NOTIFY_OVERLOAD_def SL3_HID_NOTIFY_PHONO_def
        memcpy_at_front)
  show "hid_in_buf dev ! 0 = 0x39 \<Longrightarrow> 9 \<le> len \<Longrightarrow> hid_in_dispatch len dev =
           (dev\<lparr>usb_port_status := take 4 (drop 5 (hid_in_buf dev))\<rparr>, [])"
    using d c by (simp add: hid_in_dispatch_def SL3_HID_NOTIFY_OVERLOAD_def SL3_HID_NOTIFY_PHONO_def
        SL3_HID_NOTIFY_USB_PORT_def memcpy_at_front)
  show "hid_in_buf dev ! 0 \<noteq> 0x34 \<Longrightarrow> hid_in_buf dev ! 0 \<noteq> 0x38 \<Longrightarrow> hid_in_buf dev ! 0 \<noteq> 0x39
         \<Longrightarrow> hid_in_dispatch len dev =
           (dev\<lparr>hid_response_buf := take (unat len) (hid_in_buf dev)
                                       @ drop (unat len) (hid_response_buf dev),
                 hid_response_complete := hid_response_complete dev + 1\<rparr>,
            [Complete_hid_response])"
    using d n mailbox_copy_length [OF l]
    by (simp add: hid_in_dispatch_def SL3_HID_NOTIFY_OVERLOAD_def SL3_HID_NOTIFY_PHONO_def
        SL3_HID_NOTIFY_USB_PORT_def memcpy_at_front min_def)
  show "(hid_in_buf dev ! 0 = 0x34 \<and> len < 11) \<or> (hid_in_buf dev ! 0 = 0x38 \<and> len < 8)
           \<or> (hid_in_buf dev ! 0 = 0x39 \<and> len < 9)
         \<Longrightarrow> hid_in_dispatch len dev = (dev, [])"
    by (auto simp add: hid_in_dispatch_def SL3_HID_NOTIFY_OVERLOAD_def SL3_HID_NOTIFY_PHONO_def
        SL3_HID_NOTIFY_USB_PORT_def not_le [symmetric])
qed

section \<open>Stopping a stream\<close>







































section \<open>Period accounting\<close>











lemma div_mod_carry: "(x :: nat) div d + (x mod d + y) div d = (x + y) div d"
proof (cases "d = 0")
  case True then show ?thesis by simp
next
  case False
  have "x + y = d * (x div d) + (x mod d + y)" by simp
  then have "(x + y) div d = (d * (x div d) + (x mod d + y)) div d" by (simp only:)
  also have "\<dots> = x div d + (x mod d + y) div d" using False by (rule div_mult_self4)
  finally show ?thesis by simp
qed

section \<open>Completions and the period accounting\<close>






































section \<open>Rate pattern\<close>


lemma acc_add_unat:
  fixes a :: u32
  assumes "unat a < 8000"
  shows "unat (a + 4100) = unat a + 4100"
proof -
  have "unat a + unat (4100 :: u32) < 2 ^ LENGTH(32)" using assms by simp
  then have "unat (a + 4100) = unat a + unat (4100 :: u32)"
    by (simp only: unat_add_lem)
  then show ?thesis by simp
qed

lemma next_packet_samples_44k:
  assumes r: "current_rate dev \<noteq> 48000" and a: "unat (sample_accumulator dev) < 8000"
  shows "unat (fst (sl3_next_packet_samples dev)) = 5 + (unat (sample_accumulator dev) + 4100) div 8000
       \<and> unat (sample_accumulator (snd (sl3_next_packet_samples dev))) = (unat (sample_accumulator dev) + 4100) mod 8000
       \<and> current_rate (snd (sl3_next_packet_samples dev)) = current_rate dev
       \<and> (fst (sl3_next_packet_samples dev) = 5 \<or> fst (sl3_next_packet_samples dev) = 6)"
proof -
  let ?a = "sample_accumulator dev"
  have u: "unat (?a + 4100) = unat ?a + 4100" using a by (rule acc_add_unat)
  show ?thesis
  proof (cases "(8000 :: u32) \<le> ?a + 4100")
    case True
    then have ge: "8000 \<le> unat ?a + 4100" using u by (simp add: word_le_nat_alt)
    have "unat (?a + 4100 - 8000) = unat (?a + 4100) - unat (8000 :: u32)"
      using True by (rule unat_sub)
    then have s: "unat (?a + 4100 - 8000) = unat ?a + 4100 - 8000" using u by simp
    have d: "(unat ?a + 4100) div 8000 = 1" using ge a by simp
    have m: "(unat ?a + 4100) mod 8000 = unat ?a + 4100 - 8000"
      using ge a by (simp add: mod_if)
    show ?thesis using r True s d m
      by (simp add: sl3_next_packet_samples_def SL3_SAMPLES_44K_BASE_def SL3_FRAC_NUM_def
          SL3_FRAC_DENOM_def Let_def)
  next
    case False
    then have lt: "unat ?a + 4100 < 8000" using u by (simp add: word_le_nat_alt)
    show ?thesis using r False u lt
      by (simp add: sl3_next_packet_samples_def SL3_SAMPLES_44K_BASE_def SL3_FRAC_NUM_def
          SL3_FRAC_DENOM_def Let_def)
  qed
qed


lemma next_samples_calls_44k:
  assumes "current_rate dev \<noteq> 48000" and "unat (sample_accumulator dev) < 8000"
  shows "sum_list (map unat (fst (next_samples_calls n dev)))
           = 5 * n + (unat (sample_accumulator dev) + 4100 * n) div 8000
       \<and> (\<forall>s \<in> set (fst (next_samples_calls n dev)). s = 5 \<or> s = 6)
       \<and> length (fst (next_samples_calls n dev)) = n"
  using assms
proof (induction n arbitrary: dev)
  case 0
  then show ?case by simp
next
  case (Suc n)
  let ?a = "unat (sample_accumulator dev)"
  obtain s dev1 where st: "sl3_next_packet_samples dev = (s, dev1)" by (cases "sl3_next_packet_samples dev")
  from next_packet_samples_44k [OF Suc.prems] st
  have s: "unat s = 5 + (?a + 4100) div 8000"
    and a1: "unat (sample_accumulator dev1) = (?a + 4100) mod 8000"
    and r1: "current_rate dev1 \<noteq> 48000"
    and s56: "s = 5 \<or> s = 6"
    using Suc.prems by simp_all
  have a1b: "unat (sample_accumulator dev1) < 8000" using a1 by simp
  note ih = Suc.IH [OF r1 a1b]
  obtain ss dev2 where rest: "next_samples_calls n dev1 = (ss, dev2)" by (cases "next_samples_calls n dev1")
  have sum: "sum_list (map unat ss) = 5 * n + ((?a + 4100) mod 8000 + 4100 * n) div 8000"
    using ih rest a1 by simp
  have "unat s + sum_list (map unat ss)
          = 5 * Suc n + ((?a + 4100) div 8000 + ((?a + 4100) mod 8000 + 4100 * n) div 8000)"
    using s sum by simp
  also have "\<dots> = 5 * Suc n + (?a + 4100 + 4100 * n) div 8000"
    by (simp only: div_mod_carry)
  finally have total: "unat s + sum_list (map unat ss) = 5 * Suc n + (?a + 4100 * Suc n) div 8000"
    by (simp add: add.assoc)
  show ?case using st rest total s56 ih by simp
qed

text \<open>
  Claim C3. At 44100 Hz and with the fractional accumulator at 0, the values returned by
  the first \<open>N + 1\<close> calls of \<open>sl3_next_packet_samples\<close> add up to
  \<open>floor ((N + 1) * 44100 / 8000)\<close>; every call returns 5 or 6; the first 8000 calls add
  up to 44100.
\<close>

theorem rate_pattern_44k:
  assumes "current_rate dev = 44100" and "sample_accumulator dev = 0"
  shows "sum_list (map unat (fst (next_samples_calls (N + 1) dev))) = ((N + 1) * 44100) div 8000
       \<and> (\<forall>s \<in> set (fst (next_samples_calls (N + 1) dev)). s = 5 \<or> s = 6)
       \<and> sum_list (map unat (fst (next_samples_calls 8000 dev))) = 44100"
proof -
  have r: "current_rate dev \<noteq> 48000" using assms by simp
  have a: "unat (sample_accumulator dev) < 8000" using assms by simp
  have gen: "sum_list (map unat (fst (next_samples_calls n dev))) = (n * 44100) div 8000" for n
  proof -
    have "sum_list (map unat (fst (next_samples_calls n dev))) = 5 * n + (4100 * n) div 8000"
      using next_samples_calls_44k [OF r a, of n] assms by simp
    also have "\<dots> = (8000 * (5 * n) + 4100 * n) div 8000" by simp
    also have "\<dots> = (n * 44100) div 8000" by (simp add: algebra_simps)
    finally show ?thesis .
  qed
  show ?thesis using gen [of "N + 1"] gen [of 8000] next_samples_calls_44k [OF r a, of "N + 1"]
    by simp
qed


theorem rate_pattern_44k_witness:
  "sum_list (map unat (fst (next_samples_calls (79 + 1) (zero_device\<lparr>current_rate := 44100\<rparr>)))) = 441
   \<and> sum_list (map unat (fst (next_samples_calls 8000 (zero_device\<lparr>current_rate := 44100\<rparr>)))) = 44100"
  using rate_pattern_44k [of "zero_device\<lparr>current_rate := 44100\<rparr>" 79]
  by (simp add: zero_device_def)

section \<open>Playback fill without a host ring\<close>


text \<open>
  Claim C10. \<open>sl3_fill_playback_urb\<close> on an allocated URB context (8 descriptors, a buffer of
  1008 bytes). The 8 packets get, in turn, the sample counts of \<open>fill_packet_samples\<close>
  (\<open>fill_samples\<close>; each at most 7 frames, and 5 or 6 frames each, as
  \<open>sl3_next_packet_samples\<close> gives them, when no feedback is used), 18 bytes a frame, and lie
  one after the other from offset 0.
  \<^item> When the playback stream has no substream, or its substream no runtime, or the runtime
    no DMA area, the fill returns, leaves \<open>hwptr\<close> and \<open>transfer_done\<close> as they were, and
    the bytes of all 8 packets in the URB's buffer are zero.
  \<^item> When a runtime with a DMA area (and a ring of at least one frame) is attached, the
    fill returns and both \<open>hwptr\<close> and \<open>transfer_done\<close> advance by the sum of the packets'
    sample counts.
\<close>

theorem fill_playback_without_runtime:
  assumes lb: "length (buffer ctx) = SL3_URB_BUFFER_SIZE"
    and ld: "length (iso_frame_desc ctx) = SL3_ISO_PACKETS"
  shows "((runtime_of (substream (playback dev)) = None
           \<or> (\<exists>r. runtime_of (substream (playback dev)) = Some r \<and> dma_area r = None))
          \<longrightarrow> (\<exists>dev' ctx'. sl3_fill_playback_urb dev ctx = Some (dev', ctx')
                 \<and> hwptr (playback dev') = hwptr (playback dev)
                 \<and> transfer_done (playback dev') = transfer_done (playback dev)
                 \<and> map desc_length (iso_frame_desc ctx')
                     = map (\<lambda>s. s * SL3_BYTES_PER_FRAME)
                         (fill_samples [0..<8] dev (feedback_samples dev))
                 \<and> (\<forall>j<8. unat (desc_offset (iso_frame_desc ctx' ! j))
                            = (\<Sum>k<j. unat (desc_length (iso_frame_desc ctx' ! k))))
                 \<and> unat (transfer_buffer_length ctx')
                     = 18 * sum_list (map unat (fill_samples [0..<8] dev (feedback_samples dev)))
                 \<and> take (unat (transfer_buffer_length ctx')) (buffer ctx')
                     = replicate (unat (transfer_buffer_length ctx')) 0
                 \<and> (\<forall>j<SL3_ISO_PACKETS.
                       take (unat (desc_length (iso_frame_desc ctx' ! j)))
                         (drop (unat (desc_offset (iso_frame_desc ctx' ! j))) (buffer ctx'))
                       = replicate (unat (desc_length (iso_frame_desc ctx' ! j))) 0)))
       \<and> ((\<exists>r dma. runtime_of (substream (playback dev)) = Some r \<and> dma_area r = Some dma
                   \<and> (of_nat (buffer_size r) :: u32) \<noteq> 0)
          \<longrightarrow> (\<exists>dev' ctx'. sl3_fill_playback_urb dev ctx = Some (dev', ctx')
                 \<and> map desc_length (iso_frame_desc ctx')
                     = map (\<lambda>s. s * SL3_BYTES_PER_FRAME)
                         (fill_samples [0..<8] dev (feedback_samples dev))
                 \<and> hwptr (playback dev') = hwptr (playback dev)
                     + of_nat (sum_list (map unat (fill_samples [0..<8] dev (feedback_samples dev))))
                 \<and> transfer_done (playback dev') = transfer_done (playback dev)
                     + of_nat (sum_list (map unat (fill_samples [0..<8] dev (feedback_samples dev))))))
       \<and> length (fill_samples [0..<8] dev (feedback_samples dev)) = 8
       \<and> (\<forall>s \<in> set (fill_samples [0..<8] dev (feedback_samples dev)). unat s \<le> 7)
       \<and> (\<not> running (capture dev) \<or> feedback_samples dev = 0
          \<longrightarrow> fill_samples [0..<8] dev (feedback_samples dev) = fst (next_samples_calls 8 dev)
              \<and> (\<forall>s \<in> set (fill_samples [0..<8] dev (feedback_samples dev)).
                    5 \<le> unat s \<and> unat s \<le> 6))"
proof (intro conjI impI)
  let ?S = "fill_samples [0..<8] dev (feedback_samples dev)"
  assume nr: "runtime_of (substream (playback dev)) = None
           \<or> (\<exists>r. runtime_of (substream (playback dev)) = Some r \<and> dma_area r = None)"
  from fill_playback_urb_no_ring [OF nr lb ld]
  obtain dev' ctx' where res: "sl3_fill_playback_urb dev ctx = Some (dev', ctx')"
    and fr: "dev' = dev\<lparr>sample_accumulator := sample_accumulator dev'\<rparr>"
    and z: "take (unat (transfer_buffer_length ctx')) (buffer ctx')
           = replicate (unat (transfer_buffer_length ctx')) 0"
    and sl: "\<forall>j<SL3_ISO_PACKETS. unat (desc_offset (iso_frame_desc ctx' ! j))
                  + unat (desc_length (iso_frame_desc ctx' ! j))
                  \<le> unat (transfer_buffer_length ctx')"
    by blast
  have ok: "ring_ok (runtime_of (substream (playback dev)))"
    using nr by (auto simp add: ring_ok_def)
  from fill_playback_urb_sizes [OF ok ld] res
  have sz: "map desc_length (iso_frame_desc ctx') = map (\<lambda>s. s * SL3_BYTES_PER_FRAME) ?S"
    and offs: "\<forall>j<8. unat (desc_offset (iso_frame_desc ctx' ! j))
                 = (\<Sum>k<j. unat (desc_length (iso_frame_desc ctx' ! k)))"
    and tbl: "unat (transfer_buffer_length ctx') = 18 * sum_list (map unat ?S)"
    by auto
  have p: "playback dev' = playback dev" by (subst fr) simp
  have slots: "\<forall>j<SL3_ISO_PACKETS.
           take (unat (desc_length (iso_frame_desc ctx' ! j)))
             (drop (unat (desc_offset (iso_frame_desc ctx' ! j))) (buffer ctx'))
           = replicate (unat (desc_length (iso_frame_desc ctx' ! j))) 0"
    using sl zero_prefix_slot [OF z] by blast
  show "\<exists>dev' ctx'. sl3_fill_playback_urb dev ctx = Some (dev', ctx')
                 \<and> hwptr (playback dev') = hwptr (playback dev)
                 \<and> transfer_done (playback dev') = transfer_done (playback dev)
                 \<and> map desc_length (iso_frame_desc ctx')
                     = map (\<lambda>s. s * SL3_BYTES_PER_FRAME) ?S
                 \<and> (\<forall>j<8. unat (desc_offset (iso_frame_desc ctx' ! j))
                            = (\<Sum>k<j. unat (desc_length (iso_frame_desc ctx' ! k))))
                 \<and> unat (transfer_buffer_length ctx') = 18 * sum_list (map unat ?S)
                 \<and> take (unat (transfer_buffer_length ctx')) (buffer ctx')
                     = replicate (unat (transfer_buffer_length ctx')) 0
                 \<and> (\<forall>j<SL3_ISO_PACKETS.
                       take (unat (desc_length (iso_frame_desc ctx' ! j)))
                         (drop (unat (desc_offset (iso_frame_desc ctx' ! j))) (buffer ctx'))
                       = replicate (unat (desc_length (iso_frame_desc ctx' ! j))) 0)"
    apply (rule exI [of _ dev'], rule exI [of _ ctx'])
    using res p sz offs tbl z slots by (simp only: simp_thms)
next
  let ?S = "fill_samples [0..<8] dev (feedback_samples dev)"
  assume "\<exists>r dma. runtime_of (substream (playback dev)) = Some r \<and> dma_area r = Some dma
                   \<and> (of_nat (buffer_size r) :: u32) \<noteq> 0"
  then obtain r dma where rt: "runtime_of (substream (playback dev)) = Some r"
    and dma: "dma_area r = Some dma" and bs: "(of_nat (buffer_size r) :: u32) \<noteq> 0"
    by blast
  from fill_playback_urb_ring [OF rt dma bs ld]
  obtain dev' ctx' where res: "sl3_fill_playback_urb dev ctx = Some (dev', ctx')"
    and fr: "dev' = dev\<lparr>sample_accumulator := sample_accumulator dev',
                playback := (playback dev)
                  \<lparr>hwptr := hwptr (playback dev) + of_nat (unat (transfer_buffer_length ctx') div 18),
                   transfer_done := transfer_done (playback dev)
                                     + of_nat (unat (transfer_buffer_length ctx') div 18)\<rparr>\<rparr>"
    by blast
  have ok: "ring_ok (runtime_of (substream (playback dev)))"
    using rt dma bs by (simp add: ring_ok_def)
  from fill_playback_urb_sizes [OF ok ld] res
  have sz: "map desc_length (iso_frame_desc ctx') = map (\<lambda>s. s * SL3_BYTES_PER_FRAME) ?S"
    and tbl: "unat (transfer_buffer_length ctx') = 18 * sum_list (map unat ?S)"
    by auto
  have fr18: "unat (transfer_buffer_length ctx') div 18 = sum_list (map unat ?S)"
    unfolding tbl by simp
  have "hwptr (playback dev') = hwptr (playback dev) + of_nat (unat (transfer_buffer_length ctx') div 18)"
    and "transfer_done (playback dev') = transfer_done (playback dev)
                                     + of_nat (unat (transfer_buffer_length ctx') div 18)"
    by (subst fr, simp)+
  then have h: "hwptr (playback dev') = hwptr (playback dev) + of_nat (sum_list (map unat ?S))"
    and t: "transfer_done (playback dev') = transfer_done (playback dev) + of_nat (sum_list (map unat ?S))"
    unfolding fr18 by blast+
  show "\<exists>dev' ctx'. sl3_fill_playback_urb dev ctx = Some (dev', ctx')
                 \<and> map desc_length (iso_frame_desc ctx') = map (\<lambda>s. s * SL3_BYTES_PER_FRAME) ?S
                 \<and> hwptr (playback dev') = hwptr (playback dev) + of_nat (sum_list (map unat ?S))
                 \<and> transfer_done (playback dev') = transfer_done (playback dev)
                     + of_nat (sum_list (map unat ?S))"
    apply (rule exI [of _ dev'], rule exI [of _ ctx'])
    using res sz h t by (simp only: simp_thms)
next
  show "length (fill_samples [0..<8] dev (feedback_samples dev)) = 8"
    using fill_samples_bound [of "[0..<8]" dev "feedback_samples dev"] by simp
next
  show "\<forall>s \<in> set (fill_samples [0..<8] dev (feedback_samples dev)). unat s \<le> 7"
    using fill_samples_bound [of "[0..<8]" dev "feedback_samples dev"] by blast
next
  assume nf: "\<not> running (capture dev) \<or> feedback_samples dev = 0"
  from fill_samples_pattern [OF nf, of "[0..<8]"]
  show e: "fill_samples [0..<8] dev (feedback_samples dev) = fst (next_samples_calls 8 dev)"
    by simp
  show "\<forall>s \<in> set (fill_samples [0..<8] dev (feedback_samples dev)). 5 \<le> unat s \<and> unat s \<le> 6"
    unfolding e by (rule next_samples_calls_bounds)
qed

text \<open>
  At rate 0 (the pattern of 44.1 kHz) from accumulator 0, on a buffer of 0xFF bytes: the
  packets have 5, 6, 5, 6, 5, 6, 5, 6 frames; without a runtime the first 792 bytes
  become zero and the stream stays at 0, with a ring of 64 frames it advances to 44.
\<close>

theorem fill_playback_without_runtime_witness:
  "(\<exists>dev' ctx'. sl3_fill_playback_urb zero_device (alloc_urb_ctx 0 (replicate 1008 0xFF) zero_urb_ctx)
        = Some (dev', ctx')
      \<and> hwptr (playback dev') = 0 \<and> transfer_done (playback dev') = 0
      \<and> map desc_length (iso_frame_desc ctx') = [90, 108, 90, 108, 90, 108, 90, 108]
      \<and> unat (transfer_buffer_length ctx') = 792
      \<and> take 792 (buffer ctx') = replicate 792 0)
   \<and> (\<exists>dev' ctx'.
        sl3_fill_playback_urb
          (zero_device\<lparr>playback := zero_stream
             \<lparr>substream := Some \<lparr>runtime = Some (host_runtime 48000 64 32 (replicate 1152 0))\<rparr>\<rparr>\<rparr>)
          (alloc_urb_ctx 0 (replicate 1008 0xFF) zero_urb_ctx) = Some (dev', ctx')
      \<and> map desc_length (iso_frame_desc ctx') = [90, 108, 90, 108, 90, 108, 90, 108]
      \<and> hwptr (playback dev') = 44 \<and> transfer_done (playback dev') = 44)"
proof -
  let ?ctx = "alloc_urb_ctx 0 (replicate 1008 0xFF) zero_urb_ctx"
  let ?ring = "zero_device\<lparr>playback := zero_stream
             \<lparr>substream := Some \<lparr>runtime = Some (host_runtime 48000 64 32 (replicate 1152 0))\<rparr>\<rparr>\<rparr>"
  have lb: "length (buffer ?ctx) = SL3_URB_BUFFER_SIZE"
    by (simp add: alloc_urb_ctx_def SL3_URB_BUFFER_SIZE_def SL3_ISO_PACKETS_def SL3_MAX_PACKET_SIZE_def)
  have ld: "length (iso_frame_desc ?ctx) = SL3_ISO_PACKETS"
    by (simp add: alloc_urb_ctx_def)
  have S0: "fill_samples [0..<8] zero_device (feedback_samples zero_device) = [5, 6, 5, 6, 5, 6, 5, 6]"
    by (simp add: upt8 fill_packet_samples_def sl3_next_packet_samples_def zero_device_def
          zero_stream_def SL3_SAMPLES_44K_BASE_def SL3_FRAC_NUM_def SL3_FRAC_DENOM_def Let_def)
  have S1: "fill_samples [0..<8] ?ring (feedback_samples ?ring) = [5, 6, 5, 6, 5, 6, 5, 6]"
    by (simp add: upt8 fill_packet_samples_def sl3_next_packet_samples_def zero_device_def
          zero_stream_def SL3_SAMPLES_44K_BASE_def SL3_FRAC_NUM_def SL3_FRAC_DENOM_def Let_def)
  have n0: "runtime_of (substream (playback zero_device)) = None"
    by (simp add: zero_device_def zero_stream_def runtime_of_def)
  have r1: "\<exists>r dma. runtime_of (substream (playback ?ring)) = Some r \<and> dma_area r = Some dma
                   \<and> (of_nat (buffer_size r) :: u32) \<noteq> 0"
    by (simp add: runtime_of_def host_runtime_def)
  have h0: "hwptr (playback zero_device) = 0" "transfer_done (playback zero_device) = 0"
    "hwptr (playback ?ring) = 0" "transfer_done (playback ?ring) = 0"
    by (simp_all add: zero_device_def zero_stream_def)
  from fill_playback_without_runtime [OF lb ld, of zero_device] n0
  have "\<exists>dev' ctx'. sl3_fill_playback_urb zero_device ?ctx = Some (dev', ctx')
      \<and> hwptr (playback dev') = hwptr (playback zero_device)
      \<and> transfer_done (playback dev') = transfer_done (playback zero_device)
      \<and> map desc_length (iso_frame_desc ctx')
          = map (\<lambda>s. s * SL3_BYTES_PER_FRAME)
              (fill_samples [0..<8] zero_device (feedback_samples zero_device))
      \<and> unat (transfer_buffer_length ctx')
          = 18 * sum_list (map unat (fill_samples [0..<8] zero_device (feedback_samples zero_device)))
      \<and> take (unat (transfer_buffer_length ctx')) (buffer ctx')
          = replicate (unat (transfer_buffer_length ctx')) 0"
    by blast
  then have a: "\<exists>dev' ctx'. sl3_fill_playback_urb zero_device ?ctx = Some (dev', ctx')
      \<and> hwptr (playback dev') = 0 \<and> transfer_done (playback dev') = 0
      \<and> map desc_length (iso_frame_desc ctx') = [90, 108, 90, 108, 90, 108, 90, 108]
      \<and> unat (transfer_buffer_length ctx') = 792
      \<and> take 792 (buffer ctx') = replicate 792 0"
    unfolding S0 h0 by (auto simp add: SL3_BYTES_PER_FRAME_def)
  from fill_playback_without_runtime [OF lb ld, of ?ring] r1
  have "\<exists>dev' ctx'. sl3_fill_playback_urb ?ring ?ctx = Some (dev', ctx')
      \<and> map desc_length (iso_frame_desc ctx')
          = map (\<lambda>s. s * SL3_BYTES_PER_FRAME) (fill_samples [0..<8] ?ring (feedback_samples ?ring))
      \<and> hwptr (playback dev') = hwptr (playback ?ring)
          + of_nat (sum_list (map unat (fill_samples [0..<8] ?ring (feedback_samples ?ring))))
      \<and> transfer_done (playback dev') = transfer_done (playback ?ring)
          + of_nat (sum_list (map unat (fill_samples [0..<8] ?ring (feedback_samples ?ring))))"
    by blast
  then have b: "\<exists>dev' ctx'. sl3_fill_playback_urb ?ring ?ctx = Some (dev', ctx')
      \<and> map desc_length (iso_frame_desc ctx') = [90, 108, 90, 108, 90, 108, 90, 108]
      \<and> hwptr (playback dev') = 44 \<and> transfer_done (playback dev') = 44"
    unfolding S1 h0 by (auto simp add: SL3_BYTES_PER_FRAME_def)
  from a b show ?thesis by (rule conjI)
qed

section \<open>Implicit feedback\<close>


text \<open>
  Claim C4, as amended. When capture is running and the published feedback count \<open>F\<close> is
  between 8 and 56, \<open>sl3_fill_playback_urb\<close> returns, the lengths of its 8 packets are the
  sizes of the ceiling division of the remaining feedback over the remaining packets (at
  most 7 frames each), they add up to exactly \<open>F\<close> frames, and the fractional accumulator is
  left as it was.
\<close>

theorem feedback_fill_distribution:
  assumes run: "running (capture dev)"
    and lo: "8 \<le> unat (feedback_samples dev)" and hi: "unat (feedback_samples dev) \<le> 56"
    and ok: "ring_ok (runtime_of (substream (playback dev)))"
    and ld: "length (iso_frame_desc ctx) = SL3_ISO_PACKETS"
  shows "\<exists>dev' ctx'. sl3_fill_playback_urb dev ctx = Some (dev', ctx')
      \<and> map (\<lambda>d. unat (desc_length d)) (iso_frame_desc ctx')
          = map (\<lambda>s. s * 18) (feedback_sizes (unat (feedback_samples dev)) 8)
      \<and> sum_list (feedback_sizes (unat (feedback_samples dev)) 8) = unat (feedback_samples dev)
      \<and> unat (transfer_buffer_length ctx') = 18 * unat (feedback_samples dev)
      \<and> sample_accumulator dev' = sample_accumulator dev"
proof -
  let ?rt = "runtime_of (substream (playback dev))"
  let ?F = "unat (feedback_samples dev)"
  have init: "fb_inv dev ?F 0 (dev, ctx, feedback_samples dev, 0)"
    unfolding fb_inv_def using run lo hi ld by simp
  have "\<exists>st'. for_each [0..<8] (fill_playback_packet ?rt) (dev, ctx, feedback_samples dev, 0) = Some st'
           \<and> fb_inv dev ?F 8 st'"
  proof (rule for_each_upt_inv [where I = "fb_inv dev ?F", OF init])
    fix i s assume "i < 8" and "fb_inv dev ?F i s"
    then show "\<exists>s'. fill_playback_packet ?rt i s = Some s' \<and> fb_inv dev ?F (Suc i) s'"
      by (rule fb_step [OF ok])
  qed simp
  then obtain d c ft off where
    run: "for_each [0..<8] (fill_playback_packet ?rt) (dev, ctx, feedback_samples dev, 0) = Some (d, c, ft, off)"
    and inv: "fb_inv dev ?F 8 (d, c, ft, off)"
    by (metis prod_cases4)
  have res: "sl3_fill_playback_urb dev ctx = Some (d, c\<lparr>transfer_buffer_length := off\<rparr>)"
    using run by (simp add: sl3_fill_playback_urb_def SL3_ISO_PACKETS_def Let_def)
  from inv have acc: "sample_accumulator d = sample_accumulator dev"
    and ldc: "length (iso_frame_desc c) = 8"
    and sizes8: "map (\<lambda>d. unat (desc_length d)) (take 8 (iso_frame_desc c))
                 = map (\<lambda>s. s * 18) (feedback_sizes ?F 8)"
    and sm: "(\<Sum>j<8. unat (desc_length (iso_frame_desc c ! j))) = unat off"
    by (auto simp add: fb_inv_def SL3_ISO_PACKETS_def)
  have sizes: "map (\<lambda>d. unat (desc_length d)) (iso_frame_desc c)
                 = map (\<lambda>s. s * 18) (feedback_sizes ?F 8)"
    using sizes8 ldc by simp
  have fsum: "sum_list (feedback_sizes ?F 8) = ?F"
    using feedback_sizes_sum [of 8 ?F] lo hi by simp
  have "unat off = sum_list (map (\<lambda>d. unat (desc_length d)) (iso_frame_desc c))"
    using sm ldc by (simp add: sum_list_sum_nth atLeast0LessThan)
  also have "\<dots> = sum_list (map (\<lambda>s. s * 18) (feedback_sizes ?F 8))" by (simp only: sizes)
  also have "\<dots> = 18 * ?F" using fsum by (simp add: sum_list_mult_const)
  finally have tbl: "unat off = 18 * ?F" .
  show ?thesis
    apply (rule exI [of _ d], rule exI [of _ "c\<lparr>transfer_buffer_length := off\<rparr>"])
    using res acc sizes fsum tbl by simp
qed

theorem feedback_fill_distribution_witness:
  "\<exists>dev' ctx'. sl3_fill_playback_urb
       (zero_device\<lparr>capture := zero_stream\<lparr>running := True\<rparr>, current_rate := 44100,
                     feedback_samples := 50\<rparr>)
       (alloc_urb_ctx 0 (replicate 1008 0xFF) zero_urb_ctx) = Some (dev', ctx')
     \<and> map (\<lambda>d. unat (desc_length d)) (iso_frame_desc ctx')
         = map (\<lambda>s. s * 18) [7, 7, 6, 6, 6, 6, 6, 6]
     \<and> unat (transfer_buffer_length ctx') = 18 * 50
     \<and> sample_accumulator dev' = 0"
proof -
  have fs: "feedback_sizes 50 8 = [7, 7, 6, 6, 6, 6, 6, 6]" by code_simp
  show ?thesis
    using feedback_fill_distribution
          [of "zero_device\<lparr>capture := zero_stream\<lparr>running := True\<rparr>, current_rate := 44100,
                     feedback_samples := 50\<rparr>"
              "alloc_urb_ctx 0 (replicate 1008 0xFF) zero_urb_ctx"]
    by (simp add: zero_device_def zero_stream_def alloc_urb_ctx_def zero_urb_ctx_def runtime_of_def
          ring_ok_def SL3_ISO_PACKETS_def fs)
qed

text \<open>
  With \<open>F = 1\<close> (capture running, 44100 Hz, accumulator 0) the feedback is used up by the
  first packet: the other seven packets come from \<open>sl3_next_packet_samples\<close>, the sizes add
  up to 39 frames and the accumulator has moved to 4700.
\<close>

theorem feedback_fill_small_counterexample:
  "map_option (\<lambda>(d, c). (map (\<lambda>d. unat (desc_length d) div 18) (iso_frame_desc c),
                          sample_accumulator d))
     (sl3_fill_playback_urb
        (zero_device\<lparr>capture := zero_stream\<lparr>running := True\<rparr>, current_rate := 44100,
                      feedback_samples := 1\<rparr>)
        (alloc_urb_ctx 0 (replicate 1008 0xFF) zero_urb_ctx))
   = Some ([1, 5, 6, 5, 6, 5, 6, 5], 4700)"
  by (simp add: sl3_fill_playback_urb_def zero_device_def zero_stream_def
        alloc_urb_ctx_def zero_urb_ctx_def zero_desc_def runtime_of_def SL3_ISO_PACKETS_def upt8
        fill_playback_packet_def fill_packet_samples_def sl3_next_packet_samples_def
        SL3_SAMPLES_48K_def SL3_SAMPLES_44K_BASE_def SL3_FRAC_NUM_def SL3_FRAC_DENOM_def
        SL3_MAX_PACKET_SIZE_def SL3_BYTES_PER_FRAME_def memset_at_def memcpy_at_def Let_def
        SL3_URB_BUFFER_SIZE_def SL3_NUM_URBS_def replicate8 update8)

section \<open>Rate switch\<close>


text \<open>
  Claim C5. \<open>sl3_set_sample_rate\<close>: a rate other than 44100 and 48000 is rejected with
  \<open>-EINVAL\<close>; a valid rate equal to the current rate returns 0; a change to another valid
  rate while the playback or the capture stream is running returns \<open>-EBUSY\<close>. In all three
  cases the device structure is returned as it was (so \<open>current_rate\<close> and the fractional
  accumulator are unchanged) and no call leaves the driver (no HID traffic).
\<close>

theorem rate_switch_guards:
  "(r \<noteq> 44100 \<and> r \<noteq> 48000 \<longrightarrow> sl3_set_sample_rate env r dev = (- EINVAL, dev, []))
   \<and> ((r = 44100 \<or> r = 48000) \<and> r = current_rate dev
        \<longrightarrow> sl3_set_sample_rate env r dev = (0, dev, []))
   \<and> ((r = 44100 \<or> r = 48000) \<and> r \<noteq> current_rate dev
          \<and> (running (playback dev) \<or> running (capture dev))
        \<longrightarrow> sl3_set_sample_rate env r dev = (- EBUSY, dev, []))"
  by (simp add: sl3_set_sample_rate_def)

theorem rate_switch_guards_witness:
  "sl3_set_sample_rate \<lparr>msg_err = 0, arrivals = []\<rparr> 32000 (zero_device\<lparr>current_rate := 48000\<rparr>)
       = (- EINVAL, zero_device\<lparr>current_rate := 48000\<rparr>, [])
   \<and> sl3_set_sample_rate \<lparr>msg_err = 0, arrivals = []\<rparr> 48000 (zero_device\<lparr>current_rate := 48000\<rparr>)
       = (0, zero_device\<lparr>current_rate := 48000\<rparr>, [])
   \<and> sl3_set_sample_rate \<lparr>msg_err = 0, arrivals = []\<rparr> 44100
         (zero_device\<lparr>current_rate := 48000, playback := zero_stream\<lparr>running := True\<rparr>\<rparr>)
       = (- EBUSY, zero_device\<lparr>current_rate := 48000, playback := zero_stream\<lparr>running := True\<rparr>\<rparr>, [])"
  using rate_switch_guards [of 32000 "\<lparr>msg_err = 0, arrivals = []\<rparr>" "zero_device\<lparr>current_rate := 48000\<rparr>"]
        rate_switch_guards [of 48000 "\<lparr>msg_err = 0, arrivals = []\<rparr>" "zero_device\<lparr>current_rate := 48000\<rparr>"]
        rate_switch_guards [of 44100 "\<lparr>msg_err = 0, arrivals = []\<rparr>"
           "zero_device\<lparr>current_rate := 48000, playback := zero_stream\<lparr>running := True\<rparr>\<rparr>"]
  by (simp add: zero_device_def zero_stream_def)

section \<open>Routing control\<close>

text \<open>
  Claim C9. \<open>sl3_route_put\<close> on control \<open>idx\<close> (0, 1, 2 for Deck A, B, C): a value above 1
  is rejected with \<open>-EINVAL\<close>; the cached value returns 0 and makes no call; another valid
  value, when the device is connected and the transfer succeeds, hands exactly one report
  to \<open>usb_interrupt_msg\<close>, with command 0x33 and payload pair id, 0x01, mode, stores the
  value in the cache and returns 1; when the send fails (the device is marked
  disconnected, or the transfer returns an error) the error is returned and the cache is
  unchanged.
\<close>

theorem route_put_behaviour:
  assumes idx: "idx < 3" and ob: "length (hid_out_buf dev) = 64"
  shows "(val > 1 \<longrightarrow> sl3_route_put env idx val dev = (- EINVAL, dev, []))
   \<and> (val \<le> 1 \<and> val = ucast (routing dev ! idx)
        \<longrightarrow> sl3_route_put env idx val dev = (0, dev, []))
   \<and> (val \<le> 1 \<and> val \<noteq> ucast (routing dev ! idx) \<and> \<not> disconnected dev \<and> msg_err env = 0
        \<longrightarrow> sl3_route_put env idx val dev
             = (1,
                dev\<lparr>hid_out_buf := [0x33, 0x1C, 0xC5, 0x00, 0x01, [0x08, 0x0E, 0x14] ! idx, 0x01, ucast val]
                                     @ replicate 56 0,
                    routing := (routing dev)[idx := ucast val]\<rparr>,
                [Usb_interrupt_msg ([0x33, 0x1C, 0xC5, 0x00, 0x01, [0x08, 0x0E, 0x14] ! idx, 0x01, ucast val]
                                     @ replicate 56 0)]))
   \<and> (val \<le> 1 \<and> val \<noteq> ucast (routing dev ! idx) \<and> (disconnected dev \<or> msg_err env \<noteq> 0)
        \<longrightarrow> fst (sl3_route_put env idx val dev) = (if disconnected dev then - ENODEV else msg_err env)
            \<and> fst (sl3_route_put env idx val dev) \<noteq> 0
            \<and> routing (fst (snd (sl3_route_put env idx val dev))) = routing dev)"
proof -
  have pair: "(of_int (pair_ids ! idx) :: u8) = [0x08, 0x0E, 0x14] ! idx"
  proof -
    from idx have "idx = 0 \<or> idx = 1 \<or> idx = 2" by arith
    then show ?thesis
      by (auto simp add: pair_ids_def SL3_PAIR_DECK_A_def SL3_PAIR_DECK_B_def SL3_PAIR_DECK_C_def)
  qed
  have mode: "(of_int (uint val) :: u8) = ucast val" by (simp only: ucast_eq)
  let ?rep = "[0x33, 0x1C, 0xC5, 0x00, 0x01, [0x08, 0x0E, 0x14] ! idx, 0x01, ucast val] @ replicate 56 (0 :: u8)"
  have r: "sl3_hid_set_routing env (pair_ids ! idx) (uint val) dev =
     (if disconnected dev then (- ENODEV, dev, [])
      else (msg_err env, dev\<lparr>hid_out_buf := ?rep\<rparr>, [Usb_interrupt_msg ?rep]))"
    using hid_set_routing_result [OF ob, of env "pair_ids ! idx" "uint val"]
    by (simp only: pair mode)
  have c1: "val > 1 \<longrightarrow> sl3_route_put env idx val dev = (- EINVAL, dev, [])"
    by (simp add: sl3_route_put_def)
  have c2: "val \<le> 1 \<and> val = ucast (routing dev ! idx)
        \<longrightarrow> sl3_route_put env idx val dev = (0, dev, [])"
    by (auto simp add: sl3_route_put_def)
  have c3: "val \<le> 1 \<and> val \<noteq> ucast (routing dev ! idx) \<and> \<not> disconnected dev \<and> msg_err env = 0
        \<longrightarrow> sl3_route_put env idx val dev
             = (1, dev\<lparr>hid_out_buf := ?rep, routing := (routing dev)[idx := ucast val]\<rparr>,
                [Usb_interrupt_msg ?rep])"
  proof (intro impI, elim conjE)
    assume a: "val \<le> 1" "val \<noteq> ucast (routing dev ! idx)" "\<not> disconnected dev" "msg_err env = 0"
    from a(1) have ng: "\<not> 1 < val" by (simp add: not_less)
    have "sl3_hid_set_routing env (pair_ids ! idx) (uint val) dev
            = (0, dev\<lparr>hid_out_buf := ?rep\<rparr>, [Usb_interrupt_msg ?rep])"
      using r a(3,4) by simp
    then show "sl3_route_put env idx val dev
             = (1, dev\<lparr>hid_out_buf := ?rep, routing := (routing dev)[idx := ucast val]\<rparr>,
                [Usb_interrupt_msg ?rep])"
      using ng a(2) by (simp add: sl3_route_put_def)
  qed
  have c4: "val \<le> 1 \<and> val \<noteq> ucast (routing dev ! idx) \<and> (disconnected dev \<or> msg_err env \<noteq> 0)
        \<longrightarrow> fst (sl3_route_put env idx val dev) = (if disconnected dev then - ENODEV else msg_err env)
            \<and> fst (sl3_route_put env idx val dev) \<noteq> 0
            \<and> routing (fst (snd (sl3_route_put env idx val dev))) = routing dev"
  proof (intro impI, elim conjE)
    assume a: "val \<le> 1" "val \<noteq> ucast (routing dev ! idx)" "disconnected dev \<or> msg_err env \<noteq> 0"
    from a(1) have ng: "\<not> 1 < val" by (simp add: not_less)
    show "fst (sl3_route_put env idx val dev) = (if disconnected dev then - ENODEV else msg_err env)
            \<and> fst (sl3_route_put env idx val dev) \<noteq> 0
            \<and> routing (fst (snd (sl3_route_put env idx val dev))) = routing dev"
    proof (cases "disconnected dev")
      case True
      then have "sl3_hid_set_routing env (pair_ids ! idx) (uint val) dev = (- ENODEV, dev, [])"
        using r by simp
      then show ?thesis using ng a(2) True by (simp add: sl3_route_put_def ENODEV_def)
    next
      case False
      then have e: "msg_err env \<noteq> 0" using a(3) by simp
      have "sl3_hid_set_routing env (pair_ids ! idx) (uint val) dev
            = (msg_err env, dev\<lparr>hid_out_buf := ?rep\<rparr>, [Usb_interrupt_msg ?rep])"
        using r False by simp
      then show ?thesis using ng a(2) False e by (simp add: sl3_route_put_def)
    qed
  qed
  show ?thesis by (rule conjI [OF c1 conjI [OF c2 conjI [OF c3 c4]]])
qed


theorem route_put_behaviour_witness:
  "sl3_route_put \<lparr>msg_err = 0, arrivals = []\<rparr> 1 0
       (zero_device\<lparr>routing := [1, 1, 1], hid_out_buf := replicate 64 0\<rparr>)
     = (1,
        zero_device\<lparr>routing := [1, 0, 1],
                     hid_out_buf := [0x33, 0x1C, 0xC5, 0x00, 0x01, 0x0E, 0x01, 0x00] @ replicate 56 0\<rparr>,
        [Usb_interrupt_msg ([0x33, 0x1C, 0xC5, 0x00, 0x01, 0x0E, 0x01, 0x00] @ replicate 56 0)])
   \<and> sl3_route_put \<lparr>msg_err = 0, arrivals = []\<rparr> 1 0
       (zero_device\<lparr>routing := [1, 0, 1], hid_out_buf := replicate 64 0\<rparr>)
     = (0, zero_device\<lparr>routing := [1, 0, 1], hid_out_buf := replicate 64 0\<rparr>, [])
   \<and> sl3_route_put \<lparr>msg_err = 0, arrivals = []\<rparr> 1 2
       (zero_device\<lparr>routing := [1, 1, 1], hid_out_buf := replicate 64 0\<rparr>)
     = (- EINVAL, zero_device\<lparr>routing := [1, 1, 1], hid_out_buf := replicate 64 0\<rparr>, [])
   \<and> routing (fst (snd (sl3_route_put \<lparr>msg_err = - 110, arrivals = []\<rparr> 1 0
       (zero_device\<lparr>routing := [1, 1, 1], hid_out_buf := replicate 64 0\<rparr>)))) = [1, 1, 1]"
  using route_put_behaviour [of 1 "zero_device\<lparr>routing := [1, 1, 1], hid_out_buf := replicate 64 0\<rparr>"
          0 "\<lparr>msg_err = 0, arrivals = []\<rparr>"]
        route_put_behaviour [of 1 "zero_device\<lparr>routing := [1, 0, 1], hid_out_buf := replicate 64 0\<rparr>"
          0 "\<lparr>msg_err = 0, arrivals = []\<rparr>"]
        route_put_behaviour [of 1 "zero_device\<lparr>routing := [1, 1, 1], hid_out_buf := replicate 64 0\<rparr>"
          2 "\<lparr>msg_err = 0, arrivals = []\<rparr>"]
        route_put_behaviour [of 1 "zero_device\<lparr>routing := [1, 1, 1], hid_out_buf := replicate 64 0\<rparr>"
          0 "\<lparr>msg_err = - 110, arrivals = []\<rparr>"]
  by (simp add: zero_device_def)

section \<open>Notification demultiplexing\<close>


text \<open>
  Claim C7, as amended. \<open>sl3_hid_in_complete\<close> with status 0 on a report of \<open>len\<close> bytes
  (1 to 64) in the 64-byte IN buffer. Code 0x34 with \<open>len \<ge> 11\<close> stores bytes 5..10 in the
  overload cache and nothing else, and notifies the Overload Status control, when the card
  and that control are registered, and no other; code 0x38 with \<open>len \<ge> 8\<close> does the same
  with bytes 5..7, the phono cache and the Phono Switch Status control; code 0x39 with
  \<open>len \<ge> 9\<close> stores bytes 5..8 in the USB-port cache and notifies nothing; any other code
  copies the \<open>len\<close> bytes of the report to the front of the response mailbox, signals the
  waiter and touches no cache; a known notification code with a shorter report changes
  nothing. In every case the URB is resubmitted exactly when the device is not marked
  disconnected.
\<close>

theorem hid_in_demux:
  assumes d: "length (hid_in_buf dev) = 64"
    and c: "length (overload_status dev) = 6" "length (phono_status dev) = 3"
           "length (usb_port_status dev) = 4"
    and l1: "1 \<le> len" and l: "len \<le> 64"
  shows "(hid_in_buf dev ! 0 = 0x34 \<and> 11 \<le> len \<longrightarrow>
            sl3_hid_in_complete 0 len err dev =
              (if disconnected dev
               then (dev\<lparr>overload_status := take 6 (drop 5 (hid_in_buf dev))\<rparr>,
                     if card dev \<and> overload_ctl dev then [Snd_ctl_notify Overload_Status] else [])
               else (dev\<lparr>overload_status := take 6 (drop 5 (hid_in_buf dev)),
                         hid_in_flight := (err = 0)\<rparr>,
                     (if card dev \<and> overload_ctl dev then [Snd_ctl_notify Overload_Status] else [])
                     @ [Usb_submit_hid_in])))
       \<and> (hid_in_buf dev ! 0 = 0x38 \<and> 8 \<le> len \<longrightarrow>
            sl3_hid_in_complete 0 len err dev =
              (if disconnected dev
               then (dev\<lparr>phono_status := take 3 (drop 5 (hid_in_buf dev))\<rparr>,
                     if card dev \<and> phono_ctl dev then [Snd_ctl_notify Phono_Switch_Status] else [])
               else (dev\<lparr>phono_status := take 3 (drop 5 (hid_in_buf dev)),
                         hid_in_flight := (err = 0)\<rparr>,
                     (if card dev \<and> phono_ctl dev then [Snd_ctl_notify Phono_Switch_Status] else [])
                     @ [Usb_submit_hid_in])))
       \<and> (hid_in_buf dev ! 0 = 0x39 \<and> 9 \<le> len \<longrightarrow>
            sl3_hid_in_complete 0 len err dev =
              (if disconnected dev
               then (dev\<lparr>usb_port_status := take 4 (drop 5 (hid_in_buf dev))\<rparr>, [])
               else (dev\<lparr>usb_port_status := take 4 (drop 5 (hid_in_buf dev)),
                         hid_in_flight := (err = 0)\<rparr>,
                     [Usb_submit_hid_in])))
       \<and> (hid_in_buf dev ! 0 \<noteq> 0x34 \<and> hid_in_buf dev ! 0 \<noteq> 0x38 \<and> hid_in_buf dev ! 0 \<noteq> 0x39 \<longrightarrow>
            sl3_hid_in_complete 0 len err dev =
              (if disconnected dev
               then (dev\<lparr>hid_response_buf := take (unat len) (hid_in_buf dev)
                                                  @ drop (unat len) (hid_response_buf dev),
                         hid_response_complete := hid_response_complete dev + 1\<rparr>,
                     [Complete_hid_response])
               else (dev\<lparr>hid_response_buf := take (unat len) (hid_in_buf dev)
                                                  @ drop (unat len) (hid_response_buf dev),
                         hid_response_complete := hid_response_complete dev + 1,
                         hid_in_flight := (err = 0)\<rparr>,
                     [Complete_hid_response, Usb_submit_hid_in])))
       \<and> ((hid_in_buf dev ! 0 = 0x34 \<and> len < 11) \<or> (hid_in_buf dev ! 0 = 0x38 \<and> len < 8)
             \<or> (hid_in_buf dev ! 0 = 0x39 \<and> len < 9) \<longrightarrow>
            sl3_hid_in_complete 0 len err dev =
              (if disconnected dev then (dev, [])
               else (dev\<lparr>hid_in_flight := (err = 0)\<rparr>, [Usb_submit_hid_in])))"
proof -
  have nl: "\<not> len < 1" using l1 by (simp only: not_less)
  note dc = hid_in_dispatch_cases [OF d c l]
  have c1: "hid_in_buf dev ! 0 = 0x34 \<and> 11 \<le> len \<longrightarrow>
            sl3_hid_in_complete 0 len err dev =
              (if disconnected dev
               then (dev\<lparr>overload_status := take 6 (drop 5 (hid_in_buf dev))\<rparr>,
                     if card dev \<and> overload_ctl dev then [Snd_ctl_notify Overload_Status] else [])
               else (dev\<lparr>overload_status := take 6 (drop 5 (hid_in_buf dev)),
                         hid_in_flight := (err = 0)\<rparr>,
                     (if card dev \<and> overload_ctl dev then [Snd_ctl_notify Overload_Status] else [])
                     @ [Usb_submit_hid_in]))"
    using nl dc(1) by (simp add: sl3_hid_in_complete_def hid_in_resubmit_def)
  have c2: "hid_in_buf dev ! 0 = 0x38 \<and> 8 \<le> len \<longrightarrow>
            sl3_hid_in_complete 0 len err dev =
              (if disconnected dev
               then (dev\<lparr>phono_status := take 3 (drop 5 (hid_in_buf dev))\<rparr>,
                     if card dev \<and> phono_ctl dev then [Snd_ctl_notify Phono_Switch_Status] else [])
               else (dev\<lparr>phono_status := take 3 (drop 5 (hid_in_buf dev)),
                         hid_in_flight := (err = 0)\<rparr>,
                     (if card dev \<and> phono_ctl dev then [Snd_ctl_notify Phono_Switch_Status] else [])
                     @ [Usb_submit_hid_in]))"
    using nl dc(2) by (simp add: sl3_hid_in_complete_def hid_in_resubmit_def)
  have c3: "hid_in_buf dev ! 0 = 0x39 \<and> 9 \<le> len \<longrightarrow>
            sl3_hid_in_complete 0 len err dev =
              (if disconnected dev
               then (dev\<lparr>usb_port_status := take 4 (drop 5 (hid_in_buf dev))\<rparr>, [])
               else (dev\<lparr>usb_port_status := take 4 (drop 5 (hid_in_buf dev)),
                         hid_in_flight := (err = 0)\<rparr>,
                     [Usb_submit_hid_in]))"
    using nl dc(3) by (simp add: sl3_hid_in_complete_def hid_in_resubmit_def)
  have c4: "hid_in_buf dev ! 0 \<noteq> 0x34 \<and> hid_in_buf dev ! 0 \<noteq> 0x38 \<and> hid_in_buf dev ! 0 \<noteq> 0x39 \<longrightarrow>
            sl3_hid_in_complete 0 len err dev =
              (if disconnected dev
               then (dev\<lparr>hid_response_buf := take (unat len) (hid_in_buf dev)
                                                  @ drop (unat len) (hid_response_buf dev),
                         hid_response_complete := hid_response_complete dev + 1\<rparr>,
                     [Complete_hid_response])
               else (dev\<lparr>hid_response_buf := take (unat len) (hid_in_buf dev)
                                                  @ drop (unat len) (hid_response_buf dev),
                         hid_response_complete := hid_response_complete dev + 1,
                         hid_in_flight := (err = 0)\<rparr>,
                     [Complete_hid_response, Usb_submit_hid_in]))"
    using nl dc(4) by (simp add: sl3_hid_in_complete_def hid_in_resubmit_def)
  have c5: "(hid_in_buf dev ! 0 = 0x34 \<and> len < 11) \<or> (hid_in_buf dev ! 0 = 0x38 \<and> len < 8)
             \<or> (hid_in_buf dev ! 0 = 0x39 \<and> len < 9) \<longrightarrow>
            sl3_hid_in_complete 0 len err dev =
              (if disconnected dev then (dev, [])
               else (dev\<lparr>hid_in_flight := (err = 0)\<rparr>, [Usb_submit_hid_in]))"
  proof
    assume "(hid_in_buf dev ! 0 = 0x34 \<and> len < 11) \<or> (hid_in_buf dev ! 0 = 0x38 \<and> len < 8)
             \<or> (hid_in_buf dev ! 0 = 0x39 \<and> len < 9)"
    then have "hid_in_dispatch len dev = (dev, [])" by (rule dc(5))
    then show "sl3_hid_in_complete 0 len err dev =
              (if disconnected dev then (dev, [])
               else (dev\<lparr>hid_in_flight := (err = 0)\<rparr>, [Usb_submit_hid_in]))"
      using nl by (simp add: sl3_hid_in_complete_def hid_in_resubmit_def)
  qed
  show ?thesis by (rule conjI [OF c1 conjI [OF c2 conjI [OF c3 conjI [OF c4 c5]]]])
qed

theorem hid_in_demux_witness:
  "sl3_hid_in_complete 0 11 0
     (zero_device\<lparr>hid_in_buf := [0x34, 0x1C, 0xC5, 0, 1, 1, 0, 0, 1, 0, 0] @ replicate 53 0,
                   card := True, overload_ctl := True\<rparr>)
   = (zero_device\<lparr>hid_in_buf := [0x34, 0x1C, 0xC5, 0, 1, 1, 0, 0, 1, 0, 0] @ replicate 53 0,
                   card := True, overload_ctl := True,
                   overload_status := [1, 0, 0, 1, 0, 0], hid_in_flight := True\<rparr>,
      [Snd_ctl_notify Overload_Status, Usb_submit_hid_in])
   \<and> sl3_hid_in_complete 0 10 0
     (zero_device\<lparr>hid_in_buf := [0x34, 0x1C, 0xC5, 0, 1, 1, 0, 0, 1, 0, 0] @ replicate 53 0,
                   card := True, overload_ctl := True\<rparr>)
   = (zero_device\<lparr>hid_in_buf := [0x34, 0x1C, 0xC5, 0, 1, 1, 0, 0, 1, 0, 0] @ replicate 53 0,
                   card := True, overload_ctl := True, hid_in_flight := True\<rparr>,
      [Usb_submit_hid_in])"
  using hid_in_demux [of "zero_device\<lparr>hid_in_buf := [0x34, 0x1C, 0xC5, 0, 1, 1, 0, 0, 1, 0, 0] @ replicate 53 0,
                   card := True, overload_ctl := True\<rparr>" 11 0]
        hid_in_demux [of "zero_device\<lparr>hid_in_buf := [0x34, 0x1C, 0xC5, 0, 1, 1, 0, 0, 1, 0, 0] @ replicate 53 0,
                   card := True, overload_ctl := True\<rparr>" 10 0]
  by (simp add: zero_device_def)

text \<open>
  On a device marked disconnected, a short overload report is not resubmitted; before the
  card is registered (\<open>card\<close> still NULL, as during the handshake of \<open>sl3_hid_init\<close>), a full
  overload report updates the cache and notifies no control.
\<close>

theorem hid_in_demux_counterexample:
  "sl3_hid_in_complete 0 10 0
     (zero_device\<lparr>hid_in_buf := [0x34, 0x1C, 0xC5, 0, 1, 1, 0, 0, 1, 0, 0] @ replicate 53 0,
                   disconnected := True\<rparr>)
   = (zero_device\<lparr>hid_in_buf := [0x34, 0x1C, 0xC5, 0, 1, 1, 0, 0, 1, 0, 0] @ replicate 53 0,
                   disconnected := True\<rparr>, [])
   \<and> sl3_hid_in_complete 0 11 0
     (zero_device\<lparr>hid_in_buf := [0x34, 0x1C, 0xC5, 0, 1, 1, 0, 0, 1, 0, 0] @ replicate 53 0\<rparr>)
   = (zero_device\<lparr>hid_in_buf := [0x34, 0x1C, 0xC5, 0, 1, 1, 0, 0, 1, 0, 0] @ replicate 53 0,
                   overload_status := [1, 0, 0, 1, 0, 0], hid_in_flight := True\<rparr>,
      [Usb_submit_hid_in])"
  by (simp add: sl3_hid_in_complete_def hid_in_dispatch_def hid_in_resubmit_def zero_device_def
        SL3_HID_NOTIFY_OVERLOAD_def memcpy_at_def)

section \<open>Default configuration of the probe\<close>

text \<open>
  Claim C6, at the parameter value 96000. Every kernel call of the probe succeeds and the
  device answers each command of the handshake; the probe succeeds and installs
  \<open>current_rate = 96000\<close>, which is neither 44100 nor 48000, with the routing USB, USB, USB.
  \<open>sl3_probe\<close> stores the module parameter without the check that \<open>sl3_set_sample_rate\<close>
  and \<open>sl3_hid_set_sample_rate\<close> make.
\<close>

theorem probe_default_rate_unchecked:
  "map_sum id (\<lambda>d. (current_rate d, routing d))
     (sl3_probe (good_probe_env ([0x32, 0x1C, 0xC5, 0, 1, 1, 0, 1] @ replicate 56 0)) 96000)
   = Inr (96000, [1, 1, 1])"
  by (simp add: sl3_probe_def good_probe_env_def good_hid_env_def zero_device_def zero_stream_def
        sl3_hid_init_def sl3_hid_send_cmd_locked_def hid_in_event_def sl3_hid_in_complete_def
        hid_in_dispatch_def hid_in_resubmit_def sl3_urb_alloc_def upt16 upt3 sl3_pcm_init_def
        sl3_control_init_def ctl_create_def SL3_ROUTE_USB_def SL3_NUM_URBS_def Let_def
        SL3_HID_NOTIFY_OVERLOAD_def SL3_HID_NOTIFY_PHONO_def SL3_HID_NOTIFY_USB_PORT_def
        SL3_HID_CMD_INIT_def memcpy_at_def put_ctx_def put_stream_def stream_of_def
        alloc_urb_ctx_def numeral_3_eq_3 SL3_HID_REPORT_SIZE_def)

section \<open>Stop and drain\<close>





section \<open>Period reporting\<close>





section \<open>HID framing\<close>

text \<open>
  Claim C8. For every command byte and every payload, the report built in a 64-byte
  buffer is: byte 0 the command, bytes 1..4 the bytes 1C C5 00 01, then the payload
  cut to at most 59 bytes, then zeros up to 64 bytes. A NULL payload gives the header
  followed by 59 zeros.
\<close>

theorem hid_build_report_layout:
  assumes "length buf = 64"
  shows "sl3_hid_build_report buf cmd (Some p) (int (length p))
           = [cmd, 0x1C, 0xC5, 0x00, 0x01] @ take 59 p @ replicate (59 - length p) 0
         \<and> sl3_hid_build_report buf cmd None n
           = [cmd, 0x1C, 0xC5, 0x00, 0x01] @ replicate 59 0
         \<and> length (sl3_hid_build_report buf cmd (Some p) (int (length p))) = 64"
  using assms by (rule hid_build_report_bytes)

theorem hid_build_report_layout_witness:
  "sl3_hid_build_report (replicate 64 0xAA) 0x33 (Some [0x0E, 0x01, 0x00]) 3
     = [0x33, 0x1C, 0xC5, 0x00, 0x01, 0x0E, 0x01, 0x00] @ replicate 56 0"
  using hid_build_report_layout [of "replicate 64 0xAA" "0x33" "[0x0E, 0x01, 0x00]" 0]
  by simp

end
